theory Spec2Isabelle
  imports Main "HOL-Library.Word"
begin

section \<open>Data model of concurrent.c\<close>

text \<open>
  The file handles the data changes that are committed on the source table while its
  replacement is being built: the output plugin stores every change in a tuplestore
  (\<^verbatim>\<open>plugin_change\<close>, \<^verbatim>\<open>store_change\<close>), the decoder drives the WAL
  reader (\<^verbatim>\<open>decode_concurrent_changes\<close>), the replay applies the stored changes to
  the new table (\<^verbatim>\<open>apply_concurrent_changes\<close>) and
  \<^verbatim>\<open>process_concurrent_changes\<close> alternates the two.

  Machine types: \<^verbatim>\<open>XLogRecPtr\<close> and \<^verbatim>\<open>Size\<close> are 64-bit unsigned,
  \<^verbatim>\<open>t_len\<close> is \<^verbatim>\<open>uint32\<close>. The counters \<^verbatim>\<open>nchanges\<close>,
  \<^verbatim>\<open>ninserts\<close>, \<^verbatim>\<open>nupdates\<close> and \<^verbatim>\<open>ndeletes\<close> are C doubles that
  are only incremented by one and compared with zero; they are natural numbers here.
\<close>

type_synonym XLogRecPtr = "64 word"
type_synonym Size = "64 word"
type_synonym Datum = "64 word"
type_synonym Oid = "32 word"
type_synonym ItemPointerData = nat
type_synonym CommandId = nat

definition InvalidXLogRecPtr :: XLogRecPtr where
  "InvalidXLogRecPtr = 0"

text \<open>
  \<^verbatim>\<open>elog(ERROR, msg)\<close> leaves the function with the message; a failed
  \<^verbatim>\<open>Assert(cond)\<close> stops the backend (a trap) and names the condition.
\<close>

datatype error = ERROR string | TRAP string

abbreviation LookupMiss :: error where
  "LookupMiss \<equiv> ERROR ''Failed to find target tuple''"

abbreviation UnrecognizedChangeKind :: error where
  "UnrecognizedChangeKind \<equiv> ERROR ''Unrecognized kind of change''"

abbreviation PendingOldRowTrap :: error where
  "PendingOldRowTrap \<equiv> TRAP ''tup_old == NULL''"

text \<open>
  \<^verbatim>\<open>HeapTupleData\<close>: the length of the row image, its location, the table and
  the bytes \<^verbatim>\<open>t_data\<close> points to.
\<close>

record HeapTupleData =
  t_len :: "32 word"
  t_self :: ItemPointerData
  t_tableOid :: Oid
  t_data :: "8 word list"

text \<open>
  The kind tag of a stored change. The tag is an integer field of the stored record, so
  a record can carry a value that is none of the four kinds.
\<close>

datatype ConcurrentChangeKind =
    PG_SQUEEZE_CHANGE_INSERT
  | PG_SQUEEZE_CHANGE_UPDATE_OLD
  | PG_SQUEEZE_CHANGE_UPDATE_NEW
  | PG_SQUEEZE_CHANGE_DELETE
  | PG_SQUEEZE_CHANGE_OTHER int

text \<open>
  One stored change, the \<^verbatim>\<open>bytea\<close> value that \<^verbatim>\<open>store_change\<close> builds:
  the varlena length word, the \<^verbatim>\<open>ConcurrentChange\<close> header (kind and the copied
  \<^verbatim>\<open>HeapTupleData\<close>, whose \<^verbatim>\<open>t_data\<close> pointer is stale) and the bytes of the
  row image that follow the header.
\<close>

record ConcurrentChange =
  varsize :: Size
  kind :: ConcurrentChangeKind
  tup_data_len :: "32 word"
  tup_data_self :: ItemPointerData
  tup_data_tableOid :: Oid
  image :: "8 word list"

text \<open>
  \<^verbatim>\<open>DecodingOutputState\<close>: the table whose changes are kept, the tuplestore
  (a list, oldest change first) and the accounting of \<^verbatim>\<open>store_change\<close>.
\<close>

record DecodingOutputState =
  relid :: Oid
  tstore :: "ConcurrentChange list"
  nchanges :: nat
  data_size :: Size

datatype ReorderBufferChangeType =
    REORDER_BUFFER_CHANGE_INSERT
  | REORDER_BUFFER_CHANGE_UPDATE
  | REORDER_BUFFER_CHANGE_DELETE
  | REORDER_BUFFER_CHANGE_INTERNAL

record ReorderBufferChange =
  action :: ReorderBufferChangeType
  oldtuple :: "HeapTupleData option"
  newtuple :: "HeapTupleData option"

record timeval =
  tv_sec :: int
  tv_usec :: int

text \<open>
  What concurrent.c calls and does not define is a parameter of the model, collected in
  one record: the build option of assertions, the size of the header in front of a
  stored row image (\<^verbatim>\<open>MAXALIGN(VARHDRSZ) + sizeof(ConcurrentChange)\<close>), the
  TOAST functions, the column access, the heap and index access methods on the new
  table (of any type \<open>'t\<close>), the catalog check, the clock and the setting
  \<^verbatim>\<open>maintenance_work_mem\<close>.

  \<^item> \<open>heap_insert t tup cid\<close> returns the table and the location given to the row;
  \<^item> \<open>index_getnext t args snap\<close> is the first row that the scan of the identity
    index returns for the key arguments \<open>args\<close> under the snapshot whose command id
    is \<open>snap\<close>, \<open>None\<close> when there is none;
  \<^item> \<open>simple_heap_update t ctid tup cid\<close> returns the table, the location of the
    new version and whether it is a heap-only tuple;
  \<^item> \<open>gettimeofday n\<close> is the time the \<open>n\<close>-th reading of the clock returns;
  \<^item> \<open>catalog_unchanged n\<close> says whether the \<open>n\<close>-th call of
    \<^verbatim>\<open>check_catalog_changes\<close> returns (it raises an error otherwise);
  \<^item> \<open>memory_behind change n\<close> is the byte that lies in memory \<open>n\<close> bytes
    behind the end of the stored record \<open>change\<close> when the record is read.
\<close>

record 't pg_env =
  assert_checking :: bool
  change_hdr_size :: Size
  HeapTupleHasExternal :: "HeapTupleData \<Rightarrow> bool"
  toast_flatten_tuple :: "HeapTupleData \<Rightarrow> HeapTupleData"
  heap_getattr :: "HeapTupleData \<Rightarrow> nat \<Rightarrow> Datum option"
  heap_insert :: "'t \<Rightarrow> HeapTupleData \<Rightarrow> CommandId \<Rightarrow> 't \<times> ItemPointerData"
  ExecInsertIndexTuples :: "'t \<Rightarrow> HeapTupleData \<Rightarrow> 't"
  index_getnext :: "'t \<Rightarrow> Datum list \<Rightarrow> CommandId \<Rightarrow> ItemPointerData option"
  simple_heap_update ::
    "'t \<Rightarrow> ItemPointerData \<Rightarrow> HeapTupleData \<Rightarrow> CommandId \<Rightarrow> 't \<times> ItemPointerData \<times> bool"
  simple_heap_delete :: "'t \<Rightarrow> ItemPointerData \<Rightarrow> CommandId \<Rightarrow> 't"
  catalog_unchanged :: "nat \<Rightarrow> bool"
  gettimeofday :: "nat \<Rightarrow> timeval"
  maintenance_work_mem :: int
  memory_behind :: "ConcurrentChange \<Rightarrow> nat \<Rightarrow> 8 word"

section \<open>Storing and retrieving one change\<close>

text \<open>
  \<^verbatim>\<open>store_change\<close>: a row with external values is flattened first; the record is
  \<^verbatim>\<open>size = MAXALIGN(VARHDRSZ) + sizeof(ConcurrentChange) + tuple->t_len\<close> bytes
  long, \<^verbatim>\<open>SET_VARSIZE\<close> keeps the low 30 bits of that size (the source has a TODO
  about rows that do not fit), \<^verbatim>\<open>memcpy\<close> copies the header and \<^verbatim>\<open>t_len\<close>
  bytes of the row image, the record goes to the end of the tuplestore and the two
  counters grow (\<^verbatim>\<open>data_size\<close> in 64-bit arithmetic). Allocation failures are not
  part of the model.
\<close>

definition change_size :: "'t pg_env \<Rightarrow> HeapTupleData \<Rightarrow> Size" where
  "change_size env tuple = change_hdr_size env + ucast (t_len tuple)"

definition flat_tuple :: "'t pg_env \<Rightarrow> HeapTupleData \<Rightarrow> HeapTupleData" where
  "flat_tuple env tuple =
     (if HeapTupleHasExternal env tuple then toast_flatten_tuple env tuple else tuple)"

definition make_change :: "'t pg_env \<Rightarrow> ConcurrentChangeKind \<Rightarrow> HeapTupleData \<Rightarrow> ConcurrentChange" where
  "make_change env k tuple0 =
     (let tuple = flat_tuple env tuple0 in
      \<lparr> varsize = take_bit 30 (change_size env tuple),
        kind = k,
        tup_data_len = t_len tuple,
        tup_data_self = t_self tuple,
        tup_data_tableOid = t_tableOid tuple,
        image = take (unat (t_len tuple)) (t_data tuple) \<rparr>)"

definition store_change ::
  "'t pg_env \<Rightarrow> DecodingOutputState \<Rightarrow> ConcurrentChangeKind \<Rightarrow> HeapTupleData \<Rightarrow> DecodingOutputState" where
  "store_change env dstate k tuple =
     dstate\<lparr> tstore := tstore dstate @ [make_change env k tuple],
             nchanges := nchanges dstate + 1,
             data_size := data_size dstate + change_size env (flat_tuple env tuple) \<rparr>"

text \<open>
  \<^verbatim>\<open>get_changed_tuple\<close> copies the header, allocates \<^verbatim>\<open>t_len\<close> bytes behind a
  fresh \<^verbatim>\<open>HeapTupleData\<close> and copies \<^verbatim>\<open>t_len\<close> bytes from behind the stored
  header (lines 681-685). It looks at no other length and has no error exit. Where the
  record holds fewer than \<^verbatim>\<open>t_len\<close> bytes of row image, \<^verbatim>\<open>memcpy\<close> goes on
  past the end of the record and copies the bytes that lie behind it in memory, so the
  row has \<^verbatim>\<open>t_len\<close> bytes in every case. (A copy that leaves the memory of the
  process is not part of the model.)
\<close>

definition get_changed_tuple :: "'t pg_env \<Rightarrow> ConcurrentChange \<Rightarrow> HeapTupleData" where
  "get_changed_tuple env change =
     \<lparr> t_len = tup_data_len change,
       t_self = tup_data_self change,
       t_tableOid = tup_data_tableOid change,
       t_data =
         take (unat (tup_data_len change)) (image change)
         @ map (memory_behind env change)
             [0 ..< unat (tup_data_len change) - length (image change)] \<rparr>"

text \<open>
  \<^verbatim>\<open>plugin_change\<close>, the callback for one decoded change of the relation
  \<open>rd_id\<close>: changes of other tables are ignored; an insert stores its new row, an
  update stores its old row (when the change carries one) and then its new row, a
  delete stores its old row; a missing row is an error. The \<^verbatim>\<open>default\<close> branch is
  \<^verbatim>\<open>Assert(0)\<close>.
\<close>

definition plugin_change ::
  "'t pg_env \<Rightarrow> DecodingOutputState \<Rightarrow> Oid \<Rightarrow> ReorderBufferChange \<Rightarrow> error + DecodingOutputState" where
  "plugin_change env dstate rd_id change =
     (if rd_id \<noteq> relid dstate then Inr dstate
      else case action change of
        REORDER_BUFFER_CHANGE_INSERT \<Rightarrow>
          (case newtuple change of
             None \<Rightarrow> Inl (ERROR ''Incomplete insert info.'')
           | Some new \<Rightarrow> Inr (store_change env dstate PG_SQUEEZE_CHANGE_INSERT new))
      | REORDER_BUFFER_CHANGE_UPDATE \<Rightarrow>
          (case newtuple change of
             None \<Rightarrow> Inl (ERROR ''Incomplete update info.'')
           | Some new \<Rightarrow>
               (let dstate1 =
                      (case oldtuple change of
                         None \<Rightarrow> dstate
                       | Some old \<Rightarrow> store_change env dstate PG_SQUEEZE_CHANGE_UPDATE_OLD old)
                in Inr (store_change env dstate1 PG_SQUEEZE_CHANGE_UPDATE_NEW new)))
      | REORDER_BUFFER_CHANGE_DELETE \<Rightarrow>
          (case oldtuple change of
             None \<Rightarrow> Inl (ERROR ''Incomplete delete info.'')
           | Some old \<Rightarrow> Inr (store_change env dstate PG_SQUEEZE_CHANGE_DELETE old))
      | REORDER_BUFFER_CHANGE_INTERNAL \<Rightarrow>
          (if assert_checking env then Inl (TRAP ''0'') else Inr dstate))"

section \<open>Replay: apply_concurrent_changes\<close>

text \<open>
  The state of a replay pass: the new table, the command counter of the transaction
  (\<^verbatim>\<open>CommandCounterIncrement\<close>), the command id of the active snapshot
  (\<^verbatim>\<open>UpdateActiveSnapshotCommandId\<close>), and the local variables of
  \<^verbatim>\<open>apply_concurrent_changes\<close>: the pending old row \<^verbatim>\<open>tup_old\<close>, whether a
  bulk insert state is held, and the three counts. \<open>scans\<close> keeps, newest first, the
  key arguments and the snapshot command id of every scan of the identity index, so
  that what a lookup was made with can be stated.
\<close>

record 't replay_state =
  rel :: 't
  command_id :: CommandId
  snapshot_cid :: CommandId
  tup_old :: "HeapTupleData option"
  bistate :: bool
  ninserts :: nat
  nupdates :: nat
  ndeletes :: nat
  scans :: "(Datum list \<times> CommandId) list"

text \<open>
  \<^verbatim>\<open>CommandCounterIncrement(); UpdateActiveSnapshotCommandId();\<close> (lines 363-364).
  Every change that reaches it has used the current command id.
\<close>

definition make_visible :: "'t replay_state \<Rightarrow> 't replay_state" where
  "make_visible st =
     st\<lparr> command_id := command_id st + 1, snapshot_cid := command_id st + 1 \<rparr>"

text \<open>
  Lines 284-292: the row whose columns the lookup uses. For a delete the source has
  \<^verbatim>\<open>Assert(tup_old == NULL)\<close>.
\<close>

definition tup_key_of ::
  "'t pg_env \<Rightarrow> ConcurrentChangeKind \<Rightarrow> HeapTupleData option \<Rightarrow> HeapTupleData \<Rightarrow> error + HeapTupleData" where
  "tup_key_of env k old tup =
     (if k = PG_SQUEEZE_CHANGE_UPDATE_NEW then
        Inr (case old of Some pending \<Rightarrow> pending | None \<Rightarrow> tup)
      else if assert_checking env \<and> old \<noteq> None then Inl PendingOldRowTrap
      else Inr tup)"

text \<open>
  Lines 309-320: every entry of the scan key gets the column \<^verbatim>\<open>sk_attno\<close> of the
  key row as its argument. \<^verbatim>\<open>heap_getattr\<close> returns the datum 0 for a null column,
  which \<^verbatim>\<open>Assert(!isnull)\<close> refuses.
\<close>

fun finalize_scan_key :: "'t pg_env \<Rightarrow> HeapTupleData \<Rightarrow> nat list \<Rightarrow> error + Datum list" where
  "finalize_scan_key env tup_key [] = Inr []"
| "finalize_scan_key env tup_key (sk_attno # entries) =
     (case heap_getattr env tup_key sk_attno of
        None \<Rightarrow>
          (if assert_checking env then Inl (TRAP ''!isnull'')
           else case finalize_scan_key env tup_key entries of
                  Inl e \<Rightarrow> Inl e
                | Inr args \<Rightarrow> Inr (0 # args))
      | Some d \<Rightarrow>
          (case finalize_scan_key env tup_key entries of
             Inl e \<Rightarrow> Inl e
           | Inr args \<Rightarrow> Inr (d # args)))"

text \<open>
  Lines 276-356, the branch of an UPDATE_NEW or DELETE change \<open>tup\<close>: find the row by
  the identity index, update or delete it, forget the pending old row. An error leaves
  with the state at that moment.
\<close>

definition apply_update_or_delete ::
  "'t pg_env \<Rightarrow> nat list \<Rightarrow> 't replay_state \<Rightarrow> ConcurrentChangeKind \<Rightarrow> HeapTupleData \<Rightarrow>
     (error \<times> 't replay_state) + 't replay_state" where
  "apply_update_or_delete env key st k tup =
     (case tup_key_of env k (tup_old st) tup of
        Inl e \<Rightarrow> Inl (e, st)
      | Inr tup_key \<Rightarrow>
          (case finalize_scan_key env tup_key key of
             Inl e \<Rightarrow> Inl (e, st)
           | Inr args \<Rightarrow>
               (let st1 = st\<lparr> scans := (args, snapshot_cid st) # scans st \<rparr> in
                case index_getnext env (rel st1) args (snapshot_cid st1) of
                  None \<Rightarrow> Inl (LookupMiss, st1)
                | Some ctid \<Rightarrow>
                    (let st2 =
                       (if k = PG_SQUEEZE_CHANGE_UPDATE_NEW then
                          (case simple_heap_update env (rel st1) ctid tup (command_id st1) of
                             (r, new_ctid, heap_only) \<Rightarrow>
                               st1\<lparr> rel := (if heap_only then r
                                              else ExecInsertIndexTuples env r (tup\<lparr>t_self := new_ctid\<rparr>)),
                                    nupdates := nupdates st1 + 1 \<rparr>)
                        else
                          st1\<lparr> rel := simple_heap_delete env (rel st1) ctid (command_id st1),
                               ndeletes := ndeletes st1 + 1 \<rparr>)
                     in Inr (st2\<lparr> tup_old := None \<rparr>)))))"

text \<open>
  Lines 245-275, the branch of an INSERT change.
\<close>

definition apply_insert ::
  "'t pg_env \<Rightarrow> 't replay_state \<Rightarrow> HeapTupleData \<Rightarrow> (error \<times> 't replay_state) + 't replay_state" where
  "apply_insert env st tup =
     (if assert_checking env \<and> tup_old st \<noteq> None then Inl (PendingOldRowTrap, st)
      else case heap_insert env (rel st) tup (command_id st) of
        (r, ctid) \<Rightarrow>
          Inr (st\<lparr> bistate := True,
                   rel := ExecInsertIndexTuples env r (tup\<lparr>t_self := ctid\<rparr>),
                   ninserts := ninserts st + 1 \<rparr>))"

text \<open>
  One iteration of the loop of lines 209-366, for the stored change \<open>change\<close>.
\<close>

definition apply_change ::
  "'t pg_env \<Rightarrow> nat list \<Rightarrow> 't replay_state \<Rightarrow> ConcurrentChange \<Rightarrow>
     (error \<times> 't replay_state) + 't replay_state" where
  "apply_change env key st0 change =
     (let st = (if kind change \<noteq> PG_SQUEEZE_CHANGE_INSERT \<and> bistate st0
                then st0\<lparr> bistate := False \<rparr> else st0);
          tup = get_changed_tuple env change
      in if kind change = PG_SQUEEZE_CHANGE_UPDATE_OLD then
           (if assert_checking env \<and> tup_old st \<noteq> None then Inl (PendingOldRowTrap, st)
            else Inr (st\<lparr> tup_old := Some tup \<rparr>))
         else if kind change = PG_SQUEEZE_CHANGE_INSERT then
           (case apply_insert env st tup of
              Inl e \<Rightarrow> Inl e
            | Inr st' \<Rightarrow> Inr (make_visible st'))
         else if kind change = PG_SQUEEZE_CHANGE_UPDATE_NEW
                 \<or> kind change = PG_SQUEEZE_CHANGE_DELETE then
           (case apply_update_or_delete env key st (kind change) tup of
              Inl e \<Rightarrow> Inl e
            | Inr st' \<Rightarrow> Inr (make_visible st'))
         else Inl (UnrecognizedChangeKind, st))"

text \<open>
  The loop over the tuplestore, oldest change first; the first error ends it.
\<close>

fun apply_changes ::
  "'t pg_env \<Rightarrow> nat list \<Rightarrow> 't replay_state \<Rightarrow> ConcurrentChange list \<Rightarrow>
     (error \<times> 't replay_state) + 't replay_state" where
  "apply_changes env key st [] = Inr st"
| "apply_changes env key st (change # changes) =
     (case apply_change env key st change of
        Inl e \<Rightarrow> Inl e
      | Inr st' \<Rightarrow> apply_changes env key st' changes)"

text \<open>
  \<^verbatim>\<open>apply_concurrent_changes\<close>: nothing happens when \<^verbatim>\<open>nchanges\<close> is zero.
  Otherwise a snapshot of the current command is pushed, the changes are applied, the
  tuplestore is cleared and both counters are set to zero, the snapshot is popped and
  the bulk insert state is freed. An error leaves the buffer as it was.
\<close>

definition replay_start :: "'t replay_state \<Rightarrow> 't replay_state" where
  "replay_start st =
     st\<lparr> snapshot_cid := command_id st, tup_old := None, bistate := False,
         ninserts := 0, nupdates := 0, ndeletes := 0 \<rparr>"

definition apply_concurrent_changes ::
  "'t pg_env \<Rightarrow> nat list \<Rightarrow> DecodingOutputState \<Rightarrow> 't replay_state \<Rightarrow>
     (error \<times> 't replay_state) + (DecodingOutputState \<times> 't replay_state)" where
  "apply_concurrent_changes env key dstate st =
     (if nchanges dstate = 0 then Inr (dstate, st)
      else
        case apply_changes env key (replay_start st) (tstore dstate) of
          Inl e \<Rightarrow> Inl e
        | Inr st' \<Rightarrow>
            Inr (dstate\<lparr> tstore := [], nchanges := 0, data_size := 0 \<rparr>,
                 st'\<lparr> snapshot_cid := snapshot_cid st, bistate := False \<rparr>))"

section \<open>Decoding: decode_concurrent_changes\<close>

text \<open>
  \<^verbatim>\<open>processing_time_elapsed\<close>: never with no deadline; otherwise the clock is read
  (the \<open>n\<close>-th reading) and compared with the deadline, seconds first. The result
  comes with the number of readings made so far.
\<close>

definition processing_time_elapsed :: "'t pg_env \<Rightarrow> timeval option \<Rightarrow> nat \<Rightarrow> bool \<times> nat" where
  "processing_time_elapsed env utmost n =
     (case utmost of
        None \<Rightarrow> (False, n)
      | Some u \<Rightarrow>
          (let now = gettimeofday env n in
           (if tv_sec now < tv_sec u then False
            else if tv_sec now > tv_sec u then True
            else tv_usec now \<ge> tv_usec u,
            Suc n)))"

text \<open>
  The WAL is outside concurrent.c. It is given as the outcomes of the coming calls of
  \<^verbatim>\<open>XLogReadRecord\<close>, in order: a record, with the reader's \<^verbatim>\<open>EndRecPtr\<close>
  after it and the changes that \<^verbatim>\<open>LogicalDecodingProcessRecord\<close> passes to
  \<^verbatim>\<open>plugin_change\<close> for it (each with the \<^verbatim>\<open>rd_id\<close> of its relation; all
  changes of a transaction come with its commit record); no record and no message; or
  an error message. When the outcomes are used up the reader waits for WAL that does
  not come: the call does not return, which is the result \<open>None\<close>.
\<close>

datatype XLogRead =
    XLogRecord XLogRecPtr "(Oid \<times> ReorderBufferChange) list"
  | XLogNoRecord
  | XLogReadError string

text \<open>
  The part of \<^verbatim>\<open>LogicalDecodingContext\<close> and of the backend that the decoder
  touches: \<^verbatim>\<open>ctx->reader->EndRecPtr\<close>, \<^verbatim>\<open>ctx->output_writer_private\<close>, the
  position last passed to \<^verbatim>\<open>LogicalConfirmReceivedLocation\<close>, and how often the
  clock has been read. Cache invalidation, the resource owner and pending interrupts are
  left out.
\<close>

record decoding_ctx =
  EndRecPtr :: XLogRecPtr
  output_writer_private :: DecodingOutputState
  confirmed_flush :: XLogRecPtr
  clock_reads :: nat

fun LogicalDecodingProcessRecord ::
  "'t pg_env \<Rightarrow> DecodingOutputState \<Rightarrow> (Oid \<times> ReorderBufferChange) list \<Rightarrow> error + DecodingOutputState" where
  "LogicalDecodingProcessRecord env dstate [] = Inr dstate"
| "LogicalDecodingProcessRecord env dstate ((rd_id, change) # changes) =
     (case plugin_change env dstate rd_id change of
        Inl e \<Rightarrow> Inl e
      | Inr dstate' \<Rightarrow> LogicalDecodingProcessRecord env dstate' changes)"

text \<open>
  Line 121: \<^verbatim>\<open>(Size) maintenance_work_mem * 1024L\<close>.
\<close>

definition maintenance_wm_bytes :: "'t pg_env \<Rightarrow> Size" where
  "maintenance_wm_bytes env = word_of_int (maintenance_work_mem env) * 1024"

text \<open>
  Lines 123-126, the condition of the loop: a valid position below \<^verbatim>\<open>end_of_wal\<close>
  (the start pointer or the reader's), and a buffer below the limit.
\<close>

definition wal_below_end :: "XLogRecPtr \<Rightarrow> XLogRecPtr \<Rightarrow> decoding_ctx \<Rightarrow> bool" where
  "wal_below_end end_of_wal startptr ctx =
     ((startptr \<noteq> InvalidXLogRecPtr \<and> startptr < end_of_wal)
      \<or> (EndRecPtr ctx \<noteq> InvalidXLogRecPtr \<and> EndRecPtr ctx < end_of_wal))"

definition decode_more :: "'t pg_env \<Rightarrow> XLogRecPtr \<Rightarrow> XLogRecPtr \<Rightarrow> decoding_ctx \<Rightarrow> bool" where
  "decode_more env end_of_wal startptr ctx =
     (wal_below_end end_of_wal startptr ctx
      \<and> data_size (output_writer_private ctx) < maintenance_wm_bytes env)"

text \<open>
  Lines 131-138, one reading: an error message is raised; a record moves the reader and
  is decoded, which calls \<^verbatim>\<open>plugin_change\<close> for its changes.
\<close>

definition decode_record :: "'t pg_env \<Rightarrow> decoding_ctx \<Rightarrow> XLogRead \<Rightarrow> error + decoding_ctx" where
  "decode_record env ctx r =
     (case r of
        XLogReadError errm \<Rightarrow> Inl (ERROR errm)
      | XLogNoRecord \<Rightarrow> Inr ctx
      | XLogRecord end_rec changes \<Rightarrow>
          (case LogicalDecodingProcessRecord env (output_writer_private ctx) changes of
             Inl e \<Rightarrow> Inl e
           | Inr dstate \<Rightarrow> Inr (ctx\<lparr> EndRecPtr := end_rec, output_writer_private := dstate \<rparr>)))"

text \<open>
  How the loop was left: its condition was false, or the \<^verbatim>\<open>break\<close> of line 141.
\<close>

datatype loop_exit = LoopCondition | DeadlineBreak

text \<open>
  The loop of lines 123-144. After the first reading the start pointer is invalid.
  The result is what is left of the WAL, the start pointer, the context and the exit.
\<close>

fun decode_loop ::
  "'t pg_env \<Rightarrow> XLogRecPtr \<Rightarrow> timeval option \<Rightarrow> XLogRead list \<Rightarrow> XLogRecPtr \<Rightarrow> decoding_ctx \<Rightarrow>
     (error + XLogRead list \<times> XLogRecPtr \<times> decoding_ctx \<times> loop_exit) option" where
  "decode_loop env end_of_wal must_complete [] startptr ctx =
     (if decode_more env end_of_wal startptr ctx then None
      else Some (Inr ([], startptr, ctx, LoopCondition)))"
| "decode_loop env end_of_wal must_complete (r # wal) startptr ctx =
     (if decode_more env end_of_wal startptr ctx then
        (case decode_record env ctx r of
           Inl e \<Rightarrow> Some (Inl e)
         | Inr ctx1 \<Rightarrow>
             (case processing_time_elapsed env must_complete (clock_reads ctx1) of
                (elapsed, n) \<Rightarrow>
                  if elapsed then
                    Some (Inr (wal, InvalidXLogRecPtr, ctx1\<lparr> clock_reads := n \<rparr>, DeadlineBreak))
                  else
                    decode_loop env end_of_wal must_complete wal InvalidXLogRecPtr
                      (ctx1\<lparr> clock_reads := n \<rparr>)))
      else Some (Inr (r # wal, startptr, ctx, LoopCondition)))"

text \<open>
  Lines 148-149: the reader's position is confirmed when it is valid.
\<close>

definition confirm_received :: "decoding_ctx \<Rightarrow> decoding_ctx" where
  "confirm_received c =
     (if EndRecPtr c \<noteq> InvalidXLogRecPtr then c\<lparr> confirmed_flush := EndRecPtr c \<rparr> else c)"

text \<open>
  \<^verbatim>\<open>decode_concurrent_changes\<close>: the loop, the confirmation, and the result of
  line 165.
\<close>

definition decode_concurrent_changes ::
  "'t pg_env \<Rightarrow> XLogRecPtr \<Rightarrow> timeval option \<Rightarrow> XLogRead list \<Rightarrow> XLogRecPtr \<Rightarrow> decoding_ctx \<Rightarrow>
     (error + XLogRead list \<times> XLogRecPtr \<times> decoding_ctx \<times> bool) option" where
  "decode_concurrent_changes env end_of_wal must_complete wal startptr ctx =
     (case decode_loop env end_of_wal must_complete wal startptr ctx of
        None \<Rightarrow> None
      | Some (Inl e) \<Rightarrow> Some (Inl e)
      | Some (Inr (wal', startptr', ctx', how)) \<Rightarrow>
          Some (Inr (wal', startptr', confirm_received ctx',
                     EndRecPtr ctx' = InvalidXLogRecPtr \<or> EndRecPtr ctx' \<ge> end_of_wal)))"

section \<open>The coordinator: process_concurrent_changes\<close>

text \<open>
  Modelled from the spec: \<^verbatim>\<open>check_catalog_changes\<close> is defined in another file of
  the repository. The spec has it as \<^verbatim>\<open>validate(token, lock_mode_held)\<close>, which
  returns or fails with a fatal error when the schema has changed; here the parameter
  \<open>catalog_unchanged\<close> says which of the two the \<open>n\<close>-th call does.
\<close>

text \<open>
  What a call works on: the WAL still to be read, the caller's start pointer, the
  decoding context, the state of the replay, and the number of catalog checks made.
\<close>

record 't coordinator_state =
  wal_ahead :: "XLogRead list"
  start_pointer :: XLogRecPtr
  decoding :: decoding_ctx
  replaying :: "'t replay_state"
  catalog_checks :: nat

text \<open>
  \<^verbatim>\<open>process_concurrent_changes\<close>. The loop \<^verbatim>\<open>while (!done)\<close> need not end (a
  buffer that is at its limit and holds no change is decoded again and again), so the
  first argument bounds the number of iterations and \<open>None\<close> says that the call has
  not returned within them. An iteration decodes; returns false when the deadline has
  passed; starts over when nothing is buffered; otherwise checks the catalog (an error
  when it changed) and applies the buffer.
\<close>

fun process_concurrent_changes ::
  "nat \<Rightarrow> 't pg_env \<Rightarrow> nat list \<Rightarrow> XLogRecPtr \<Rightarrow> timeval option \<Rightarrow> 't coordinator_state \<Rightarrow>
     (error + bool \<times> 't coordinator_state) option" where
  "process_concurrent_changes 0 env ident_key end_of_wal must_complete cs = None"
| "process_concurrent_changes (Suc fuel) env ident_key end_of_wal must_complete cs =
     (case decode_concurrent_changes env end_of_wal must_complete (wal_ahead cs) (start_pointer cs) (decoding cs) of
        None \<Rightarrow> None
      | Some (Inl e) \<Rightarrow> Some (Inl e)
      | Some (Inr (wal', startptr', ctx', done)) \<Rightarrow>
          (case processing_time_elapsed env must_complete (clock_reads ctx') of
             (elapsed, n) \<Rightarrow>
               (let cs1 = cs\<lparr> wal_ahead := wal', start_pointer := startptr',
                               decoding := ctx'\<lparr> clock_reads := n \<rparr> \<rparr>
                in if elapsed then Some (Inr (False, cs1))
                   else if nchanges (output_writer_private (decoding cs1)) = 0 then
                     (if done then Some (Inr (True, cs1))
                      else process_concurrent_changes fuel env ident_key end_of_wal must_complete cs1)
                   else if \<not> catalog_unchanged env (catalog_checks cs1) then
                     Some (Inl (ERROR ''catalog changed''))
                   else
                     (case apply_concurrent_changes env ident_key
                             (output_writer_private (decoding cs1)) (replaying cs1) of
                        Inl (e, st) \<Rightarrow> Some (Inl e)
                      | Inr (dstate, st) \<Rightarrow>
                          (let cs2 = cs1\<lparr> decoding := (decoding cs1)\<lparr> output_writer_private := dstate \<rparr>,
                                          replaying := st,
                                          catalog_checks := Suc (catalog_checks cs1) \<rparr>
                           in if done then Some (Inr (True, cs2))
                              else process_concurrent_changes fuel env ident_key end_of_wal
                                     must_complete cs2)))))"

section \<open>Auxiliary notions for the statements\<close>

text \<open>
  The state in which a step or a pass ended, with or without an error.
\<close>

definition state_after :: "(error \<times> 's) + 's \<Rightarrow> 's" where
  "state_after r = (case r of Inl (e, s) \<Rightarrow> s | Inr s \<Rightarrow> s)"

text \<open>
  The columns of a row at the attribute numbers of the identity key, null as 0.
\<close>

definition key_columns :: "'t pg_env \<Rightarrow> HeapTupleData \<Rightarrow> nat list \<Rightarrow> Datum list" where
  "key_columns env tup key =
     map (\<lambda>attno. case heap_getattr env tup attno of Some d \<Rightarrow> d | None \<Rightarrow> 0) key"

text \<open>
  Whether \<^verbatim>\<open>Assert(!isnull)\<close> of line 316 stops the building of the scan key from
  the row \<open>tup\<close>: assertions are checked and a key column of the row is null.
\<close>

definition isnull_trap :: "'t pg_env \<Rightarrow> HeapTupleData \<Rightarrow> nat list \<Rightarrow> bool" where
  "isnull_trap env tup key =
     (assert_checking env \<and> (\<exists>attno \<in> set key. heap_getattr env tup attno = None))"

text \<open>
  The size that \<^verbatim>\<open>store_change\<close> has accounted for a stored change, and the
  accounting invariant of the buffer: \<^verbatim>\<open>nchanges\<close> counts the stored changes and
  \<^verbatim>\<open>data_size\<close> is the sum of their sizes.
\<close>

definition stored_size :: "'t pg_env \<Rightarrow> ConcurrentChange \<Rightarrow> Size" where
  "stored_size env change = change_hdr_size env + ucast (tup_data_len change)"

definition buffer_accounted :: "'t pg_env \<Rightarrow> DecodingOutputState \<Rightarrow> bool" where
  "buffer_accounted env dstate =
     (nchanges dstate = length (tstore dstate)
      \<and> data_size dstate = sum_list (map (stored_size env) (tstore dstate)))"


text \<open>
  The changes that \<^verbatim>\<open>plugin_change\<close> stores for one decoded change, as kind and
  row, in the order of the calls of \<^verbatim>\<open>store_change\<close>; and those of one reading of
  the WAL.
\<close>

definition captured_changes ::
  "Oid \<Rightarrow> Oid \<times> ReorderBufferChange \<Rightarrow> (ConcurrentChangeKind \<times> HeapTupleData) list" where
  "captured_changes rel_id c =
     (if fst c \<noteq> rel_id then []
      else case action (snd c) of
        REORDER_BUFFER_CHANGE_INSERT \<Rightarrow>
          (case newtuple (snd c) of None \<Rightarrow> [] | Some new \<Rightarrow> [(PG_SQUEEZE_CHANGE_INSERT, new)])
      | REORDER_BUFFER_CHANGE_UPDATE \<Rightarrow>
          (case newtuple (snd c) of
             None \<Rightarrow> []
           | Some new \<Rightarrow>
               (case oldtuple (snd c) of
                  None \<Rightarrow> []
                | Some old \<Rightarrow> [(PG_SQUEEZE_CHANGE_UPDATE_OLD, old)])
               @ [(PG_SQUEEZE_CHANGE_UPDATE_NEW, new)])
      | REORDER_BUFFER_CHANGE_DELETE \<Rightarrow>
          (case oldtuple (snd c) of None \<Rightarrow> [] | Some old \<Rightarrow> [(PG_SQUEEZE_CHANGE_DELETE, old)])
      | REORDER_BUFFER_CHANGE_INTERNAL \<Rightarrow> [])"

definition record_changes ::
  "Oid \<Rightarrow> XLogRead \<Rightarrow> (ConcurrentChangeKind \<times> HeapTupleData) list" where
  "record_changes rel_id r =
     (case r of
        XLogRecord end_rec changes \<Rightarrow> concat (map (captured_changes rel_id) changes)
      | XLogNoRecord \<Rightarrow> []
      | XLogReadError errm \<Rightarrow> [])"

definition store_changes ::
  "'t pg_env \<Rightarrow> DecodingOutputState \<Rightarrow> (ConcurrentChangeKind \<times> HeapTupleData) list \<Rightarrow>
     DecodingOutputState" where
  "store_changes env dstate kts = fold (\<lambda>(k, tup) d. store_change env d k tup) kts dstate"

text \<open>
  A reading that ends the loop of the decoder: an error, or a record that takes the
  reader to the end bound (or to no position).
\<close>

definition ends_decoding :: "XLogRecPtr \<Rightarrow> XLogRead \<Rightarrow> bool" where
  "ends_decoding end_of_wal r =
     (case r of
        XLogRecord end_rec changes \<Rightarrow> end_rec = InvalidXLogRecPtr \<or> end_of_wal \<le> end_rec
      | XLogNoRecord \<Rightarrow> False
      | XLogReadError errm \<Rightarrow> True)"

text \<open>
  The order of two readings of the clock.
\<close>

definition timeval_le :: "timeval \<Rightarrow> timeval \<Rightarrow> bool" where
  "timeval_le a b = (tv_sec a < tv_sec b \<or> (tv_sec a = tv_sec b \<and> tv_usec a \<le> tv_usec b))"


section \<open>A table kept in a list, to run the model\<close>

text \<open>
  A small implementation of the parameters, for running the definitions on concrete
  inputs: the table is a list of rows with their location and the command that wrote
  them, a row is visible to a snapshot taken by a later command, column \<open>n\<close> of a
  row is byte \<open>n\<close> of its image, rows have no external values, every update moves
  the row, the header in front of a stored row image is 40 bytes, and the memory behind
  a stored record holds zeros.
\<close>

record list_table =
  table_rows :: "(ItemPointerData \<times> HeapTupleData \<times> CommandId) list"
  next_ctid :: ItemPointerData
  index_entries :: "(ItemPointerData \<times> Datum list) list"

definition byte_attr :: "HeapTupleData \<Rightarrow> nat \<Rightarrow> Datum option" where
  "byte_attr tup attno =
     (if 0 < attno \<and> attno \<le> length (t_data tup)
      then Some (ucast (t_data tup ! (attno - 1))) else None)"

definition byte_key :: "nat list \<Rightarrow> HeapTupleData \<Rightarrow> Datum list" where
  "byte_key key tup =
     map (\<lambda>attno. case byte_attr tup attno of Some d \<Rightarrow> d | None \<Rightarrow> 0) key"

definition list_heap_insert ::
  "list_table \<Rightarrow> HeapTupleData \<Rightarrow> CommandId \<Rightarrow> list_table \<times> ItemPointerData" where
  "list_heap_insert t tup cid =
     (t\<lparr> table_rows := table_rows t @ [(next_ctid t, tup\<lparr>t_self := next_ctid t\<rparr>, cid)],
         next_ctid := Suc (next_ctid t) \<rparr>,
      next_ctid t)"

definition list_index_insert :: "nat list \<Rightarrow> list_table \<Rightarrow> HeapTupleData \<Rightarrow> list_table" where
  "list_index_insert key t tup =
     t\<lparr> index_entries := index_entries t @ [(t_self tup, byte_key key tup)] \<rparr>"

definition list_index_getnext ::
  "nat list \<Rightarrow> list_table \<Rightarrow> Datum list \<Rightarrow> CommandId \<Rightarrow> ItemPointerData option" where
  "list_index_getnext key t args snap =
     map_option fst
       (find (\<lambda>(ctid, tup, cmin). cmin < snap \<and> byte_key key tup = args) (table_rows t))"

definition list_heap_delete :: "list_table \<Rightarrow> ItemPointerData \<Rightarrow> CommandId \<Rightarrow> list_table" where
  "list_heap_delete t ctid cid =
     t\<lparr> table_rows := filter (\<lambda>(c, tup, cmin). c \<noteq> ctid) (table_rows t) \<rparr>"

definition list_heap_update ::
  "list_table \<Rightarrow> ItemPointerData \<Rightarrow> HeapTupleData \<Rightarrow> CommandId \<Rightarrow>
     list_table \<times> ItemPointerData \<times> bool" where
  "list_heap_update t ctid tup cid =
     (case list_heap_insert (list_heap_delete t ctid cid) tup cid of
        (t', new_ctid) \<Rightarrow> (t', new_ctid, False))"

definition list_env ::
  "bool \<Rightarrow> nat list \<Rightarrow> int \<Rightarrow> (nat \<Rightarrow> timeval) \<Rightarrow> list_table pg_env" where
  "list_env assertions key work_mem clock =
     \<lparr> assert_checking = assertions,
       change_hdr_size = 40,
       HeapTupleHasExternal = (\<lambda>tup. False),
       toast_flatten_tuple = (\<lambda>tup. tup),
       heap_getattr = byte_attr,
       heap_insert = list_heap_insert,
       ExecInsertIndexTuples = list_index_insert key,
       index_getnext = list_index_getnext key,
       simple_heap_update = list_heap_update,
       simple_heap_delete = list_heap_delete,
       catalog_unchanged = (\<lambda>n. True),
       gettimeofday = clock,
       maintenance_work_mem = work_mem,
       memory_behind = (\<lambda>change n. 0) \<rparr>"

text \<open>
  A row of the given bytes, an empty table, and the state before the first command.
\<close>

definition row_of :: "8 word list \<Rightarrow> HeapTupleData" where
  "row_of bytes = \<lparr> t_len = of_nat (length bytes), t_self = 0, t_tableOid = 1, t_data = bytes \<rparr>"

definition stored :: "ConcurrentChangeKind \<Rightarrow> 8 word list \<Rightarrow> ConcurrentChange" where
  "stored k bytes = make_change (list_env False [1] 1024 (\<lambda>n. \<lparr>tv_sec = 0, tv_usec = 0\<rparr>)) k (row_of bytes)"

definition empty_table :: list_table where
  "empty_table = \<lparr> table_rows = [], next_ctid = 1, index_entries = [] \<rparr>"

definition fresh_state :: "list_table \<Rightarrow> list_table replay_state" where
  "fresh_state t =
     \<lparr> rel = t, command_id = 1, snapshot_cid = 1, tup_old = None, bistate = False,
       ninserts = 0, nupdates = 0, ndeletes = 0, scans = [] \<rparr>"

definition steady_clock :: "nat \<Rightarrow> timeval" where
  "steady_clock n = \<lparr> tv_sec = int n, tv_usec = 0 \<rparr>"

text \<open>
  A clock that is set back after its first reading: the first reading is 5 seconds, all
  later readings are 0 seconds.
\<close>

definition clock_set_back :: "nat \<Rightarrow> timeval" where
  "clock_set_back n = \<lparr> tv_sec = (if n = 0 then 5 else 0), tv_usec = 0 \<rparr>"

text \<open>
  Concrete inputs: a table with the one row \<open>[7, 2, 3]\<close>, a buffer that accounts
  for the changes it is given (for the relation 1, with the 40-byte header), a replay
  state with a pending old row, and two sequences of stored changes.
\<close>

definition one_row_table :: list_table where
  "one_row_table =
     \<lparr> table_rows = [(1, \<lparr> t_len = 3, t_self = 1, t_tableOid = 1, t_data = [7, 2, 3] \<rparr>, 0)],
       next_ctid = 2, index_entries = [(1, [7])] \<rparr>"

definition buffered :: "ConcurrentChange list \<Rightarrow> DecodingOutputState" where
  "buffered changes =
     \<lparr> relid = 1, tstore = changes, nchanges = length changes,
       data_size = sum_list (map (\<lambda>c. 40 + ucast (tup_data_len c)) changes) \<rparr>"

definition pending_state :: "list_table replay_state" where
  "pending_state = (fresh_state one_row_table)\<lparr> tup_old := Some (row_of [7, 2, 3]) \<rparr>"

definition four_kinds :: "ConcurrentChange list" where
  "four_kinds =
     [stored PG_SQUEEZE_CHANGE_INSERT [1, 2, 3], stored PG_SQUEEZE_CHANGE_UPDATE_OLD [1, 2, 3],
      stored PG_SQUEEZE_CHANGE_UPDATE_NEW [4, 5, 5], stored PG_SQUEEZE_CHANGE_DELETE [7, 9, 9]]"

definition miss_buffer :: "ConcurrentChange list" where
  "miss_buffer =
     [stored PG_SQUEEZE_CHANGE_INSERT [1, 2, 3], stored PG_SQUEEZE_CHANGE_DELETE [2, 2, 3],
      stored PG_SQUEEZE_CHANGE_INSERT [4, 4, 4]]"

definition update_with_old :: ReorderBufferChange where
  "update_with_old =
     \<lparr> action = REORDER_BUFFER_CHANGE_UPDATE,
       oldtuple = Some (row_of [7, 2, 3]), newtuple = Some (row_of [7, 5, 5]) \<rparr>"


definition insert_of :: "8 word list \<Rightarrow> ReorderBufferChange" where
  "insert_of bytes =
     \<lparr> action = REORDER_BUFFER_CHANGE_INSERT, oldtuple = None, newtuple = Some (row_of bytes) \<rparr>"


text \<open>
  A decoding context in which nothing has been read or stored, and a stretch of WAL:
  an insert, an update with its old row, a record of another kind, and two more records.
\<close>

definition fresh_ctx :: decoding_ctx where
  "fresh_ctx =
     \<lparr> EndRecPtr = 0, output_writer_private = buffered [], confirmed_flush = 0,
       clock_reads = 0 \<rparr>"

definition sample_wal :: "XLogRead list" where
  "sample_wal =
     [XLogRecord 120 [(1, insert_of [1, 2, 3])], XLogRecord 150 [(1, update_with_old)],
      XLogRecord 170 [], XLogRecord 200 [], XLogRecord 250 []]"


definition two_record_wal :: "XLogRead list" where
  "two_record_wal = [XLogRecord 120 [(1, insert_of [1, 2, 3])], XLogRecord 200 []]"

definition sample_session :: "list_table coordinator_state" where
  "sample_session =
     \<lparr> wal_ahead = sample_wal, start_pointer = 100, decoding = fresh_ctx,
       replaying = fresh_state one_row_table, catalog_checks = 0 \<rparr>"

text \<open>
  Inputs on the scale of the setting: \<^verbatim>\<open>maintenance_work_mem\<close> at 1024 kB, its
  smallest value, so that the limit is 1048576 bytes, and rows of 600000 bytes, stored
  as 600040 bytes each. In \<open>big_wal\<close> the second record is an update with its old row;
  in \<open>big_inserts\<close> every record is one insert.
\<close>

definition big_env :: "list_table pg_env" where
  "big_env = list_env True [1] 1024 steady_clock"

definition big_row :: "8 word \<Rightarrow> HeapTupleData" where
  "big_row b = \<lparr> t_len = 600000, t_self = 0, t_tableOid = 1, t_data = replicate 600000 b \<rparr>"

definition big_insert :: "8 word \<Rightarrow> ReorderBufferChange" where
  "big_insert b =
     \<lparr> action = REORDER_BUFFER_CHANGE_INSERT, oldtuple = None, newtuple = Some (big_row b) \<rparr>"

definition big_update :: "8 word \<Rightarrow> 8 word \<Rightarrow> ReorderBufferChange" where
  "big_update a b =
     \<lparr> action = REORDER_BUFFER_CHANGE_UPDATE, oldtuple = Some (big_row a),
       newtuple = Some (big_row b) \<rparr>"

definition big_wal :: "XLogRead list" where
  "big_wal =
     [XLogRecord 120 [(1, big_insert 1)], XLogRecord 150 [(1, big_update 1 2)],
      XLogRecord 170 [(1, big_insert 3)], XLogRecord 200 []]"

definition big_inserts :: "XLogRead list" where
  "big_inserts =
     [XLogRecord 120 [(1, big_insert 1)], XLogRecord 150 [(1, big_insert 2)],
      XLogRecord 170 [(1, big_insert 3)], XLogRecord 200 []]"

section \<open>Properties of the replay\<close>

subsection \<open>General facts\<close>

lemma state_after_simps [simp]:
  "state_after (Inl (e, s)) = s" "state_after (Inr s) = s"
  by (simp_all add: state_after_def)

lemma make_visible_fields [simp]:
  "scans (make_visible st) = scans st"
  "tup_old (make_visible st) = tup_old st"
  "rel (make_visible st) = rel st"
  "command_id (make_visible st) = Suc (command_id st)"
  "snapshot_cid (make_visible st) = Suc (command_id st)"
  by (simp_all add: make_visible_def)

lemma bistate_cleared:
  "(if bistate st then st\<lparr> bistate := False \<rparr> else st) = st\<lparr> bistate := False \<rparr>"
  by (cases st) simp

lemma apply_changes_append:
  "apply_changes env key st (xs @ ys) =
     (case apply_changes env key st xs of Inl e \<Rightarrow> Inl e | Inr s \<Rightarrow> apply_changes env key s ys)"
  by (induction xs arbitrary: st) (auto split: sum.splits)

lemma finalize_scan_key_columns:
  "finalize_scan_key env tup key = Inr args \<Longrightarrow> args = key_columns env tup key"
  by (induction key arbitrary: args)
     (auto simp: key_columns_def split: option.splits if_splits sum.splits)


subsection \<open>The row a lookup is made with\<close>

lemma apply_update_or_delete_scans:
  assumes "tup_key_of env k (tup_old st) tup = Inr tup_key"
      and "finalize_scan_key env tup_key key = Inr args"
  shows "scans (state_after (apply_update_or_delete env key st k tup)) = (args, snapshot_cid st) # scans st"
  using assms
  by (auto simp: apply_update_or_delete_def state_after_def Let_def split: option.splits prod.splits)

lemma apply_update_or_delete_pending:
  "apply_update_or_delete env key st k tup = Inr st' \<Longrightarrow> tup_old st' = None"
  by (auto simp: apply_update_or_delete_def Let_def split: option.splits prod.splits sum.splits)


lemma finalize_scan_key_eq:
  "finalize_scan_key env tup key =
     (if isnull_trap env tup key then Inl (TRAP ''!isnull'')
      else Inr (key_columns env tup key))"
  by (induction key) (auto simp: isnull_trap_def key_columns_def split: option.splits)


text \<open>
  Claim C1. For every replayed UpdateNew event the lookup in the identity index
  (\<^verbatim>\<open>index_getnext\<close> on the new table, with the active snapshot) is made with the key
  columns of the pending old row when there is one and with those of the event's own row
  image otherwise; for every Delete event it is made with the key columns of the event's
  own row image; after an UpdateNew has been applied no old row is pending. The result
  of the step is what that lookup decides: when it finds no row the step ends with the
  error of line 323, and when it finds a row, that row is the one updated with the
  event's row image (or deleted), one more update (or delete) is counted, no old row is
  pending and the command counter has advanced. The lookup is also entered in \<open>scans\<close>.
  (The lookup is made when \<^verbatim>\<open>Assert(!isnull)\<close> lets the scan key be built; a delete
  that finds a pending row in a build with assertions stops at the assertion of line 290
  instead.)
\<close>

theorem lookup_key_of_update_and_delete:
  "(kind change = PG_SQUEEZE_CHANGE_UPDATE_NEW
      \<and> key_row = (case tup_old st of Some pending \<Rightarrow> pending
                   | None \<Rightarrow> get_changed_tuple env change)
      \<and> \<not> isnull_trap env key_row key
    \<longrightarrow> apply_change env key st change =
          (case index_getnext env (rel st) (key_columns env key_row key) (snapshot_cid st) of
             None \<Rightarrow>
               Inl (LookupMiss,
                    st\<lparr> bistate := False,
                        scans := (key_columns env key_row key, snapshot_cid st) # scans st \<rparr>)
           | Some ctid \<Rightarrow>
               (case simple_heap_update env (rel st) ctid (get_changed_tuple env change)
                       (command_id st) of
                  (r, new_ctid, heap_only) \<Rightarrow>
                    Inr (st\<lparr> rel := (if heap_only then r
                                      else ExecInsertIndexTuples env r
                                             ((get_changed_tuple env change)\<lparr>t_self := new_ctid\<rparr>)),
                             command_id := command_id st + 1,
                             snapshot_cid := command_id st + 1,
                             tup_old := None,
                             bistate := False,
                             nupdates := nupdates st + 1,
                             scans := (key_columns env key_row key, snapshot_cid st) # scans st \<rparr>))))
   \<and> (kind change = PG_SQUEEZE_CHANGE_DELETE
      \<and> \<not> (assert_checking env \<and> tup_old st \<noteq> None)
      \<and> \<not> isnull_trap env (get_changed_tuple env change) key
    \<longrightarrow> apply_change env key st change =
          (case index_getnext env (rel st)
                  (key_columns env (get_changed_tuple env change) key) (snapshot_cid st) of
             None \<Rightarrow>
               Inl (LookupMiss,
                    st\<lparr> bistate := False,
                        scans := (key_columns env (get_changed_tuple env change) key,
                                  snapshot_cid st) # scans st \<rparr>)
           | Some ctid \<Rightarrow>
               Inr (st\<lparr> rel := simple_heap_delete env (rel st) ctid (command_id st),
                        command_id := command_id st + 1,
                        snapshot_cid := command_id st + 1,
                        tup_old := None,
                        bistate := False,
                        ndeletes := ndeletes st + 1,
                        scans := (key_columns env (get_changed_tuple env change) key,
                                  snapshot_cid st) # scans st \<rparr>)))
   \<and> (kind change = PG_SQUEEZE_CHANGE_UPDATE_NEW
      \<and> apply_change env key st change = Inr st'
    \<longrightarrow> tup_old st' = None)"
proof -
  have upd: "apply_change env key st change =
          (case index_getnext env (rel st) (key_columns env key_row key) (snapshot_cid st) of
             None \<Rightarrow>
               Inl (LookupMiss,
                    st\<lparr> bistate := False,
                        scans := (key_columns env key_row key, snapshot_cid st) # scans st \<rparr>)
           | Some ctid \<Rightarrow>
               (case simple_heap_update env (rel st) ctid (get_changed_tuple env change)
                       (command_id st) of
                  (r, new_ctid, heap_only) \<Rightarrow>
                    Inr (st\<lparr> rel := (if heap_only then r
                                      else ExecInsertIndexTuples env r
                                             ((get_changed_tuple env change)\<lparr>t_self := new_ctid\<rparr>)),
                             command_id := command_id st + 1,
                             snapshot_cid := command_id st + 1,
                             tup_old := None,
                             bistate := False,
                             nupdates := nupdates st + 1,
                             scans := (key_columns env key_row key, snapshot_cid st) # scans st \<rparr>)))"
    if "kind change = PG_SQUEEZE_CHANGE_UPDATE_NEW
        \<and> key_row = (case tup_old st of Some pending \<Rightarrow> pending
                     | None \<Rightarrow> get_changed_tuple env change)
        \<and> \<not> isnull_trap env key_row key"
    using that
    by (cases st)
       (auto simp: apply_change_def apply_update_or_delete_def tup_key_of_def
                   finalize_scan_key_eq make_visible_def Let_def
             split: option.splits prod.splits)
  have del: "apply_change env key st change =
          (case index_getnext env (rel st)
                  (key_columns env (get_changed_tuple env change) key) (snapshot_cid st) of
             None \<Rightarrow>
               Inl (LookupMiss,
                    st\<lparr> bistate := False,
                        scans := (key_columns env (get_changed_tuple env change) key,
                                  snapshot_cid st) # scans st \<rparr>)
           | Some ctid \<Rightarrow>
               Inr (st\<lparr> rel := simple_heap_delete env (rel st) ctid (command_id st),
                        command_id := command_id st + 1,
                        snapshot_cid := command_id st + 1,
                        tup_old := None,
                        bistate := False,
                        ndeletes := ndeletes st + 1,
                        scans := (key_columns env (get_changed_tuple env change) key,
                                  snapshot_cid st) # scans st \<rparr>))"
    if "kind change = PG_SQUEEZE_CHANGE_DELETE
        \<and> \<not> (assert_checking env \<and> tup_old st \<noteq> None)
        \<and> \<not> isnull_trap env (get_changed_tuple env change) key"
    using that
    by (cases st)
       (auto simp: apply_change_def apply_update_or_delete_def tup_key_of_def
                   finalize_scan_key_eq make_visible_def Let_def
             split: option.splits prod.splits)
  have cleared: "tup_old st' = None"
    if "kind change = PG_SQUEEZE_CHANGE_UPDATE_NEW \<and> apply_change env key st change = Inr st'"
    using that
    by (auto simp: apply_change_def Let_def dest: apply_update_or_delete_pending
             split: sum.splits if_splits)
  from upd del cleared show ?thesis by blast
qed


text \<open>
  The statement at concrete inputs, on the table that holds the row \<open>[7, 2, 3]\<close> at
  location 1: an UpdateNew of the row \<open>[1, 5, 5]\<close> with the old row \<open>[7, 2, 3]\<close>
  pending looks up the key 7, replaces the row found by \<open>[1, 5, 5]\<close> and leaves no row
  pending; an UpdateNew of \<open>[7, 5, 5]\<close> with nothing pending looks up its own key 7;
  a Delete of \<open>[7, 9, 9]\<close> looks up its own key 7 and removes the row; a Delete of
  \<open>[2, 2, 3]\<close> looks up its own key 2 and finds nothing.
\<close>

theorem lookup_key_of_update_and_delete_witness:
  "apply_change (list_env False [1] 1024 steady_clock) [1] pending_state
       (stored PG_SQUEEZE_CHANGE_UPDATE_NEW [1, 5, 5])
     = Inr \<lparr> rel = \<lparr> table_rows = [(2, \<lparr> t_len = 3, t_self = 2, t_tableOid = 1,
                                          t_data = [1, 5, 5] \<rparr>, 1)],
                     next_ctid = 3, index_entries = [(1, [7]), (2, [1])] \<rparr>,
             command_id = 2, snapshot_cid = 2, tup_old = None, bistate = False,
             ninserts = 0, nupdates = 1, ndeletes = 0, scans = [([7], 1)] \<rparr>
   \<and> apply_change (list_env False [1] 1024 steady_clock) [1] (fresh_state one_row_table)
       (stored PG_SQUEEZE_CHANGE_UPDATE_NEW [7, 5, 5])
     = Inr \<lparr> rel = \<lparr> table_rows = [(2, \<lparr> t_len = 3, t_self = 2, t_tableOid = 1,
                                          t_data = [7, 5, 5] \<rparr>, 1)],
                     next_ctid = 3, index_entries = [(1, [7]), (2, [7])] \<rparr>,
             command_id = 2, snapshot_cid = 2, tup_old = None, bistate = False,
             ninserts = 0, nupdates = 1, ndeletes = 0, scans = [([7], 1)] \<rparr>
   \<and> apply_change (list_env True [1] 1024 steady_clock) [1] (fresh_state one_row_table)
       (stored PG_SQUEEZE_CHANGE_DELETE [7, 9, 9])
     = Inr \<lparr> rel = \<lparr> table_rows = [], next_ctid = 2, index_entries = [(1, [7])] \<rparr>,
             command_id = 2, snapshot_cid = 2, tup_old = None, bistate = False,
             ninserts = 0, nupdates = 0, ndeletes = 1, scans = [([7], 1)] \<rparr>
   \<and> apply_change (list_env True [1] 1024 steady_clock) [1] (fresh_state one_row_table)
       (stored PG_SQUEEZE_CHANGE_DELETE [2, 2, 3])
     = Inl (LookupMiss,
            \<lparr> rel = \<lparr> table_rows = [(1, \<lparr> t_len = 3, t_self = 1, t_tableOid = 1,
                                          t_data = [7, 2, 3] \<rparr>, 0)],
                     next_ctid = 2, index_entries = [(1, [7])] \<rparr>,
              command_id = 1, snapshot_cid = 1, tup_old = None, bistate = False,
              ninserts = 0, nupdates = 0, ndeletes = 0, scans = [([2], 1)] \<rparr>)"
proof -
  let ?envR = "list_env False [1] 1024 steady_clock"
  let ?envD = "list_env True [1] 1024 steady_clock"
  let ?new = "stored PG_SQUEEZE_CHANGE_UPDATE_NEW [1, 5, 5]"
  let ?new7 = "stored PG_SQUEEZE_CHANGE_UPDATE_NEW [7, 5, 5]"
  let ?del = "stored PG_SQUEEZE_CHANGE_DELETE [7, 9, 9]"
  let ?del2 = "stored PG_SQUEEZE_CHANGE_DELETE [2, 2, 3]"
  let ?fresh = "fresh_state one_row_table"
  let ?old = "row_of [7, 2, 3]"
  have k1: "kind ?new = PG_SQUEEZE_CHANGE_UPDATE_NEW" by code_simp
  have r1: "?old = (case tup_old pending_state of Some pending \<Rightarrow> pending
                    | None \<Rightarrow> get_changed_tuple ?envR ?new)" by code_simp
  have n1: "\<not> isnull_trap ?envR ?old [1]" by code_simp
  have v1: "(case index_getnext ?envR (rel pending_state) (key_columns ?envR ?old [1])
                    (snapshot_cid pending_state) of
             None \<Rightarrow>
               Inl (LookupMiss,
                    pending_state\<lparr> bistate := False,
                        scans := (key_columns ?envR ?old [1], snapshot_cid pending_state)
                                 # scans pending_state \<rparr>)
           | Some ctid \<Rightarrow>
               (case simple_heap_update ?envR (rel pending_state) ctid
                       (get_changed_tuple ?envR ?new) (command_id pending_state) of
                  (r, new_ctid, heap_only) \<Rightarrow>
                    Inr (pending_state\<lparr> rel := (if heap_only then r
                                      else ExecInsertIndexTuples ?envR r
                                             ((get_changed_tuple ?envR ?new)\<lparr>t_self := new_ctid\<rparr>)),
                             command_id := command_id pending_state + 1,
                             snapshot_cid := command_id pending_state + 1,
                             tup_old := None,
                             bistate := False,
                             nupdates := nupdates pending_state + 1,
                             scans := (key_columns ?envR ?old [1], snapshot_cid pending_state)
                                      # scans pending_state \<rparr>)))
     = Inr \<lparr> rel = \<lparr> table_rows = [(2, \<lparr> t_len = 3, t_self = 2, t_tableOid = 1,
                                          t_data = [1, 5, 5] \<rparr>, 1)],
                     next_ctid = 3, index_entries = [(1, [7]), (2, [1])] \<rparr>,
             command_id = 2, snapshot_cid = 2, tup_old = None, bistate = False,
             ninserts = 0, nupdates = 1, ndeletes = 0, scans = [([7], 1)] \<rparr>"
    by code_simp
  have k2: "kind ?new7 = PG_SQUEEZE_CHANGE_UPDATE_NEW" by code_simp
  have r2: "get_changed_tuple ?envR ?new7 =
              (case tup_old ?fresh of Some pending \<Rightarrow> pending
               | None \<Rightarrow> get_changed_tuple ?envR ?new7)" by code_simp
  have n2: "\<not> isnull_trap ?envR (get_changed_tuple ?envR ?new7) [1]" by code_simp
  have v2: "(case index_getnext ?envR (rel ?fresh)
                    (key_columns ?envR (get_changed_tuple ?envR ?new7) [1])
                    (snapshot_cid ?fresh) of
             None \<Rightarrow>
               Inl (LookupMiss,
                    ?fresh\<lparr> bistate := False,
                        scans := (key_columns ?envR (get_changed_tuple ?envR ?new7) [1],
                                  snapshot_cid ?fresh) # scans ?fresh \<rparr>)
           | Some ctid \<Rightarrow>
               (case simple_heap_update ?envR (rel ?fresh) ctid
                       (get_changed_tuple ?envR ?new7) (command_id ?fresh) of
                  (r, new_ctid, heap_only) \<Rightarrow>
                    Inr (?fresh\<lparr> rel := (if heap_only then r
                                      else ExecInsertIndexTuples ?envR r
                                             ((get_changed_tuple ?envR ?new7)\<lparr>t_self := new_ctid\<rparr>)),
                             command_id := command_id ?fresh + 1,
                             snapshot_cid := command_id ?fresh + 1,
                             tup_old := None,
                             bistate := False,
                             nupdates := nupdates ?fresh + 1,
                             scans := (key_columns ?envR (get_changed_tuple ?envR ?new7) [1],
                                       snapshot_cid ?fresh) # scans ?fresh \<rparr>)))
     = Inr \<lparr> rel = \<lparr> table_rows = [(2, \<lparr> t_len = 3, t_self = 2, t_tableOid = 1,
                                          t_data = [7, 5, 5] \<rparr>, 1)],
                     next_ctid = 3, index_entries = [(1, [7]), (2, [7])] \<rparr>,
             command_id = 2, snapshot_cid = 2, tup_old = None, bistate = False,
             ninserts = 0, nupdates = 1, ndeletes = 0, scans = [([7], 1)] \<rparr>"
    by code_simp
  have k3: "kind ?del = PG_SQUEEZE_CHANGE_DELETE" by code_simp
  have a3: "\<not> (assert_checking ?envD \<and> tup_old ?fresh \<noteq> None)" by code_simp
  have n3: "\<not> isnull_trap ?envD (get_changed_tuple ?envD ?del) [1]" by code_simp
  have v3: "(case index_getnext ?envD (rel ?fresh)
                  (key_columns ?envD (get_changed_tuple ?envD ?del) [1]) (snapshot_cid ?fresh) of
             None \<Rightarrow>
               Inl (LookupMiss,
                    ?fresh\<lparr> bistate := False,
                        scans := (key_columns ?envD (get_changed_tuple ?envD ?del) [1],
                                  snapshot_cid ?fresh) # scans ?fresh \<rparr>)
           | Some ctid \<Rightarrow>
               Inr (?fresh\<lparr> rel := simple_heap_delete ?envD (rel ?fresh) ctid (command_id ?fresh),
                        command_id := command_id ?fresh + 1,
                        snapshot_cid := command_id ?fresh + 1,
                        tup_old := None,
                        bistate := False,
                        ndeletes := ndeletes ?fresh + 1,
                        scans := (key_columns ?envD (get_changed_tuple ?envD ?del) [1],
                                  snapshot_cid ?fresh) # scans ?fresh \<rparr>))
     = Inr \<lparr> rel = \<lparr> table_rows = [], next_ctid = 2, index_entries = [(1, [7])] \<rparr>,
             command_id = 2, snapshot_cid = 2, tup_old = None, bistate = False,
             ninserts = 0, nupdates = 0, ndeletes = 1, scans = [([7], 1)] \<rparr>"
    by code_simp
  have k4: "kind ?del2 = PG_SQUEEZE_CHANGE_DELETE" by code_simp
  have n4: "\<not> isnull_trap ?envD (get_changed_tuple ?envD ?del2) [1]" by code_simp
  have v4: "(case index_getnext ?envD (rel ?fresh)
                  (key_columns ?envD (get_changed_tuple ?envD ?del2) [1]) (snapshot_cid ?fresh) of
             None \<Rightarrow>
               Inl (LookupMiss,
                    ?fresh\<lparr> bistate := False,
                        scans := (key_columns ?envD (get_changed_tuple ?envD ?del2) [1],
                                  snapshot_cid ?fresh) # scans ?fresh \<rparr>)
           | Some ctid \<Rightarrow>
               Inr (?fresh\<lparr> rel := simple_heap_delete ?envD (rel ?fresh) ctid (command_id ?fresh),
                        command_id := command_id ?fresh + 1,
                        snapshot_cid := command_id ?fresh + 1,
                        tup_old := None,
                        bistate := False,
                        ndeletes := ndeletes ?fresh + 1,
                        scans := (key_columns ?envD (get_changed_tuple ?envD ?del2) [1],
                                  snapshot_cid ?fresh) # scans ?fresh \<rparr>))
     = Inl (LookupMiss,
            \<lparr> rel = \<lparr> table_rows = [(1, \<lparr> t_len = 3, t_self = 1, t_tableOid = 1,
                                          t_data = [7, 2, 3] \<rparr>, 0)],
                     next_ctid = 2, index_entries = [(1, [7])] \<rparr>,
              command_id = 1, snapshot_cid = 1, tup_old = None, bistate = False,
              ninserts = 0, nupdates = 0, ndeletes = 0, scans = [([2], 1)] \<rparr>)"
    by code_simp
  note T1 = lookup_key_of_update_and_delete
              [where change = ?new and env = ?envR and st = pending_state and key = "[1]"
                 and key_row = ?old]
  note T2 = lookup_key_of_update_and_delete
              [where change = ?new7 and env = ?envR and st = ?fresh and key = "[1]"
                 and key_row = "get_changed_tuple ?envR ?new7"]
  note T3 = lookup_key_of_update_and_delete
              [where change = ?del and env = ?envD and st = ?fresh and key = "[1]"]
  note T4 = lookup_key_of_update_and_delete
              [where change = ?del2 and env = ?envD and st = ?fresh and key = "[1]"]
  from T1 k1 r1 n1 have c1: "apply_change ?envR [1] pending_state ?new = 
          (case index_getnext ?envR (rel pending_state) (key_columns ?envR ?old [1])
                    (snapshot_cid pending_state) of
             None \<Rightarrow>
               Inl (LookupMiss,
                    pending_state\<lparr> bistate := False,
                        scans := (key_columns ?envR ?old [1], snapshot_cid pending_state)
                                 # scans pending_state \<rparr>)
           | Some ctid \<Rightarrow>
               (case simple_heap_update ?envR (rel pending_state) ctid
                       (get_changed_tuple ?envR ?new) (command_id pending_state) of
                  (r, new_ctid, heap_only) \<Rightarrow>
                    Inr (pending_state\<lparr> rel := (if heap_only then r
                                      else ExecInsertIndexTuples ?envR r
                                             ((get_changed_tuple ?envR ?new)\<lparr>t_self := new_ctid\<rparr>)),
                             command_id := command_id pending_state + 1,
                             snapshot_cid := command_id pending_state + 1,
                             tup_old := None,
                             bistate := False,
                             nupdates := nupdates pending_state + 1,
                             scans := (key_columns ?envR ?old [1], snapshot_cid pending_state)
                                      # scans pending_state \<rparr>)))"
    by blast
  from T2 k2 r2 n2 have c2: "apply_change ?envR [1] ?fresh ?new7 =
          (case index_getnext ?envR (rel ?fresh)
                    (key_columns ?envR (get_changed_tuple ?envR ?new7) [1])
                    (snapshot_cid ?fresh) of
             None \<Rightarrow>
               Inl (LookupMiss,
                    ?fresh\<lparr> bistate := False,
                        scans := (key_columns ?envR (get_changed_tuple ?envR ?new7) [1],
                                  snapshot_cid ?fresh) # scans ?fresh \<rparr>)
           | Some ctid \<Rightarrow>
               (case simple_heap_update ?envR (rel ?fresh) ctid
                       (get_changed_tuple ?envR ?new7) (command_id ?fresh) of
                  (r, new_ctid, heap_only) \<Rightarrow>
                    Inr (?fresh\<lparr> rel := (if heap_only then r
                                      else ExecInsertIndexTuples ?envR r
                                             ((get_changed_tuple ?envR ?new7)\<lparr>t_self := new_ctid\<rparr>)),
                             command_id := command_id ?fresh + 1,
                             snapshot_cid := command_id ?fresh + 1,
                             tup_old := None,
                             bistate := False,
                             nupdates := nupdates ?fresh + 1,
                             scans := (key_columns ?envR (get_changed_tuple ?envR ?new7) [1],
                                       snapshot_cid ?fresh) # scans ?fresh \<rparr>)))"
    by blast
  from T3 k3 a3 n3 have c3: "apply_change ?envD [1] ?fresh ?del =
          (case index_getnext ?envD (rel ?fresh)
                  (key_columns ?envD (get_changed_tuple ?envD ?del) [1]) (snapshot_cid ?fresh) of
             None \<Rightarrow>
               Inl (LookupMiss,
                    ?fresh\<lparr> bistate := False,
                        scans := (key_columns ?envD (get_changed_tuple ?envD ?del) [1],
                                  snapshot_cid ?fresh) # scans ?fresh \<rparr>)
           | Some ctid \<Rightarrow>
               Inr (?fresh\<lparr> rel := simple_heap_delete ?envD (rel ?fresh) ctid (command_id ?fresh),
                        command_id := command_id ?fresh + 1,
                        snapshot_cid := command_id ?fresh + 1,
                        tup_old := None,
                        bistate := False,
                        ndeletes := ndeletes ?fresh + 1,
                        scans := (key_columns ?envD (get_changed_tuple ?envD ?del) [1],
                                  snapshot_cid ?fresh) # scans ?fresh \<rparr>))"
    by blast
  from T4 k4 a3 n4 have c4: "apply_change ?envD [1] ?fresh ?del2 =
          (case index_getnext ?envD (rel ?fresh)
                  (key_columns ?envD (get_changed_tuple ?envD ?del2) [1]) (snapshot_cid ?fresh) of
             None \<Rightarrow>
               Inl (LookupMiss,
                    ?fresh\<lparr> bistate := False,
                        scans := (key_columns ?envD (get_changed_tuple ?envD ?del2) [1],
                                  snapshot_cid ?fresh) # scans ?fresh \<rparr>)
           | Some ctid \<Rightarrow>
               Inr (?fresh\<lparr> rel := simple_heap_delete ?envD (rel ?fresh) ctid (command_id ?fresh),
                        command_id := command_id ?fresh + 1,
                        snapshot_cid := command_id ?fresh + 1,
                        tup_old := None,
                        bistate := False,
                        ndeletes := ndeletes ?fresh + 1,
                        scans := (key_columns ?envD (get_changed_tuple ?envD ?del2) [1],
                                  snapshot_cid ?fresh) # scans ?fresh \<rparr>))"
    by blast
  from c1 v1 c2 v2 c3 v3 c4 v4 show ?thesis by (simp only:)
qed


subsection \<open>The buffer after a pass\<close>

lemma stored_size_make_change:
  "stored_size env (make_change env k tup) = change_size env (flat_tuple env tup)"
  by (simp add: stored_size_def make_change_def change_size_def Let_def)

lemma store_change_accounted:
  "buffer_accounted env dstate \<Longrightarrow> buffer_accounted env (store_change env dstate k tup)"
  by (simp add: buffer_accounted_def store_change_def stored_size_make_change)

lemma plugin_change_accounted:
  "buffer_accounted env dstate \<Longrightarrow> plugin_change env dstate rd_id change = Inr dstate' \<Longrightarrow>
     buffer_accounted env dstate'"
  by (auto simp: plugin_change_def Let_def store_change_accounted
           split: if_splits ReorderBufferChangeType.splits option.splits)

lemma process_record_accounted:
  "buffer_accounted env dstate \<Longrightarrow> LogicalDecodingProcessRecord env dstate changes = Inr dstate' \<Longrightarrow>
     buffer_accounted env dstate'"
proof (induction changes arbitrary: dstate)
  case Nil
  then show ?case by simp
next
  case (Cons c changes)
  obtain rd_id change where c: "c = (rd_id, change)" by (cases c)
  from Cons.prems(2) c obtain d1 where
    d1: "plugin_change env dstate rd_id change = Inr d1"
    and rest: "LogicalDecodingProcessRecord env d1 changes = Inr dstate'"
    by (auto split: sum.splits)
  from plugin_change_accounted [OF Cons.prems(1) d1] Cons.IH rest show ?case by blast
qed


text \<open>
  Claim C2. After every replay pass that completes without error the buffer is empty:
  its count is 0 and its byte size is 0 (and the tuplestore holds nothing), whatever
  kinds of events were in it. The buffer is one whose counters account for its contents,
  which \<^verbatim>\<open>store_change\<close> and the pass itself maintain; the pass returns at once on a
  count of 0.
\<close>

theorem replay_pass_empties_buffer:
  assumes "buffer_accounted env dstate"
      and "apply_concurrent_changes env key dstate st = Inr (dstate', st')"
  shows "nchanges dstate' = 0 \<and> data_size dstate' = 0 \<and> tstore dstate' = []"
proof (cases "nchanges dstate = 0")
  case True
  with assms(2) have "dstate' = dstate"
    by (simp add: apply_concurrent_changes_def)
  with True assms(1) show ?thesis
    by (simp add: buffer_accounted_def)
next
  case False
  with assms(2) show ?thesis
    by (auto simp: apply_concurrent_changes_def split: sum.splits)
qed


text \<open>
  At a concrete input: a buffer with one change of each kind.
\<close>

theorem replay_pass_empties_buffer_witness:
  "buffer_accounted (list_env True [1] 1024 steady_clock) (buffered four_kinds)
   \<and> \<not> isl (apply_concurrent_changes (list_env True [1] 1024 steady_clock) [1]
               (buffered four_kinds) (fresh_state one_row_table))
   \<and> nchanges (fst (projr (apply_concurrent_changes (list_env True [1] 1024 steady_clock) [1]
               (buffered four_kinds) (fresh_state one_row_table)))) = 0
   \<and> data_size (fst (projr (apply_concurrent_changes (list_env True [1] 1024 steady_clock) [1]
               (buffered four_kinds) (fresh_state one_row_table)))) = 0
   \<and> tstore (fst (projr (apply_concurrent_changes (list_env True [1] 1024 steady_clock) [1]
               (buffered four_kinds) (fresh_state one_row_table)))) = []"
proof -
  let ?env = "list_env True [1] 1024 steady_clock"
  let ?r = "apply_concurrent_changes ?env [1] (buffered four_kinds) (fresh_state one_row_table)"
  have acc: "buffer_accounted ?env (buffered four_kinds)" by code_simp
  have ok: "\<not> isl ?r" by code_simp
  then have eq: "?r = Inr (fst (projr ?r), snd (projr ?r))" by simp
  from replay_pass_empties_buffer [OF acc eq] acc ok show ?thesis by blast
qed


subsection \<open>A second old row\<close>

text \<open>
  Claim C5 says that consuming an UpdateOld event while an old row is pending fails with
  an error. The source only has \<^verbatim>\<open>Assert(tup_old == NULL)\<close> there. In a build
  without assertions the step succeeds and the new old row replaces the pending one: the
  pass over two UpdateOld events and an UpdateNew completes.
\<close>

theorem second_old_row_counterexample:
  "tup_old pending_state = Some (row_of [7, 2, 3])
   \<and> kind (stored PG_SQUEEZE_CHANGE_UPDATE_OLD [1, 2, 3]) = PG_SQUEEZE_CHANGE_UPDATE_OLD
   \<and> apply_change (list_env False [1] 1024 steady_clock) [1] pending_state
        (stored PG_SQUEEZE_CHANGE_UPDATE_OLD [1, 2, 3])
      = Inr (pending_state\<lparr> tup_old := Some (row_of [1, 2, 3]) \<rparr>)
   \<and> \<not> isl (apply_concurrent_changes (list_env False [1] 1024 steady_clock) [1]
        (buffered [stored PG_SQUEEZE_CHANGE_UPDATE_OLD [1, 2, 3],
                   stored PG_SQUEEZE_CHANGE_UPDATE_OLD [7, 2, 3],
                   stored PG_SQUEEZE_CHANGE_UPDATE_NEW [7, 5, 5]])
        (fresh_state one_row_table))"
  by code_simp


text \<open>
  Claim C5, amended. Consuming an UpdateOld event while an old row is pending stops the
  pass with the failed assertion \<^verbatim>\<open>tup_old == NULL\<close> in a build with assertions;
  in a build without them it is no error, the row of the event replaces the pending one
  and nothing else changes. In both builds at most one old row is pending: \<open>tup_old\<close>
  holds one row or none.
\<close>

theorem second_old_row_by_build:
  assumes "kind change = PG_SQUEEZE_CHANGE_UPDATE_OLD" and "tup_old st \<noteq> None"
  shows "apply_change env key st change =
           (if assert_checking env then Inl (PendingOldRowTrap, st\<lparr> bistate := False \<rparr>)
            else Inr (st\<lparr> bistate := False, tup_old := Some (get_changed_tuple env change) \<rparr>))"
  using assms by (simp add: apply_change_def Let_def bistate_cleared)


text \<open>
  At a concrete input, in both builds.
\<close>

theorem second_old_row_by_build_witness:
  "apply_change (list_env True [1] 1024 steady_clock) [1] pending_state
        (stored PG_SQUEEZE_CHANGE_UPDATE_OLD [1, 2, 3])
      = Inl (PendingOldRowTrap, pending_state\<lparr> bistate := False \<rparr>)
   \<and> apply_change (list_env False [1] 1024 steady_clock) [1] pending_state
        (stored PG_SQUEEZE_CHANGE_UPDATE_OLD [1, 2, 3])
      = Inr (pending_state\<lparr> bistate := False,
                             tup_old := Some (get_changed_tuple (list_env False [1] 1024 steady_clock)
                                         (stored PG_SQUEEZE_CHANGE_UPDATE_OLD [1, 2, 3])) \<rparr>)"
proof -
  let ?old = "stored PG_SQUEEZE_CHANGE_UPDATE_OLD [1, 2, 3]"
  have k: "kind ?old = PG_SQUEEZE_CHANGE_UPDATE_OLD" by code_simp
  have p: "tup_old pending_state \<noteq> None" by code_simp
  have a: "assert_checking (list_env True [1] 1024 steady_clock)"
          "\<not> assert_checking (list_env False [1] 1024 steady_clock)" by code_simp+
  from second_old_row_by_build [OF k p, of "list_env True [1] 1024 steady_clock" "[1]"]
       second_old_row_by_build [OF k p, of "list_env False [1] 1024 steady_clock" "[1]"] a
  show ?thesis by simp
qed


subsection \<open>A lookup that finds nothing\<close>

lemma apply_update_or_delete_miss:
  assumes "tup_key_of env k (tup_old s) tup = Inr tup_key"
      and "finalize_scan_key env tup_key key = Inr args"
      and "index_getnext env (rel s) args (snapshot_cid s) = None"
  shows "apply_update_or_delete env key s k tup =
           Inl (LookupMiss, s\<lparr> scans := (args, snapshot_cid s) # scans s \<rparr>)"
  using assms by (simp add: apply_update_or_delete_def Let_def)

lemma apply_change_miss:
  assumes "kind change = PG_SQUEEZE_CHANGE_UPDATE_NEW \<or> kind change = PG_SQUEEZE_CHANGE_DELETE"
      and "tup_key_of env (kind change) (tup_old s) (get_changed_tuple env change) = Inr tup_key"
      and "finalize_scan_key env tup_key key = Inr args"
      and "index_getnext env (rel s) args (snapshot_cid s) = None"
  shows "apply_change env key s change =
           Inl (LookupMiss, s\<lparr> bistate := False, scans := (args, snapshot_cid s) # scans s \<rparr>)"
proof -
  let ?s = "s\<lparr> bistate := False \<rparr>"
  have "apply_update_or_delete env key ?s (kind change) (get_changed_tuple env change) =
          Inl (LookupMiss, ?s\<lparr> scans := (args, snapshot_cid ?s) # scans ?s \<rparr>)"
    using assms(2-4) by (intro apply_update_or_delete_miss) simp_all
  with assms(1) show ?thesis
    by (auto simp: apply_change_def Let_def bistate_cleared)
qed


text \<open>
  Claim C8. When the lookup for an UpdateNew or Delete event finds no row, the pass
  fails with the error "Failed to find target tuple" and no further event of the buffer
  is applied: the pass ends in the state that the events before it produced (with the
  lookup recorded and the bulk insert state released), whatever events follow.
\<close>

theorem lookup_miss_is_fatal:
  assumes "kind change = PG_SQUEEZE_CHANGE_UPDATE_NEW \<or> kind change = PG_SQUEEZE_CHANGE_DELETE"
      and "nchanges dstate \<noteq> 0"
      and "tstore dstate = before @ change # rest"
      and "apply_changes env key (replay_start st) before = Inr s"
      and "tup_key_of env (kind change) (tup_old s) (get_changed_tuple env change) = Inr tup_key"
      and "finalize_scan_key env tup_key key = Inr args"
      and "index_getnext env (rel s) args (snapshot_cid s) = None"
  shows "apply_concurrent_changes env key dstate st =
           Inl (LookupMiss, s\<lparr> bistate := False, scans := (args, snapshot_cid s) # scans s \<rparr>)"
proof -
  have "apply_changes env key (replay_start st) (before @ change # rest) =
          Inl (LookupMiss, s\<lparr> bistate := False, scans := (args, snapshot_cid s) # scans s \<rparr>)"
    using assms(4) apply_change_miss [OF assms(1) assms(5) assms(6) assms(7)]
    by (simp add: apply_changes_append)
  with assms(2,3) show ?thesis
    by (simp add: apply_concurrent_changes_def)
qed


text \<open>
  At a concrete input: an insert, a delete of a row that is not in the table, another
  insert. The table at the error holds the first inserted row and not the second.
\<close>

theorem lookup_miss_is_fatal_witness:
  "apply_concurrent_changes (list_env True [1] 1024 steady_clock) [1]
     (buffered miss_buffer) (fresh_state one_row_table)
   = Inl (LookupMiss,
          \<lparr> rel = \<lparr> table_rows =
                     [(1, \<lparr> t_len = 3, t_self = 1, t_tableOid = 1, t_data = [7, 2, 3] \<rparr>, 0),
                      (2, \<lparr> t_len = 3, t_self = 2, t_tableOid = 1, t_data = [1, 2, 3] \<rparr>, 1)],
                   next_ctid = 3, index_entries = [(1, [7]), (2, [1])] \<rparr>,
            command_id = 2, snapshot_cid = 2, tup_old = None, bistate = False,
            ninserts = 1, nupdates = 0, ndeletes = 0, scans = [([2], 2)] \<rparr>)"
proof -
  let ?env = "list_env True [1] 1024 steady_clock"
  let ?del = "stored PG_SQUEEZE_CHANGE_DELETE [2, 2, 3]"
  let ?s = "\<lparr> rel = \<lparr> table_rows =
                     [(1, \<lparr> t_len = 3, t_self = 1, t_tableOid = 1, t_data = [7, 2, 3] \<rparr>, 0),
                      (2, \<lparr> t_len = 3, t_self = 2, t_tableOid = 1, t_data = [1, 2, 3] \<rparr>, 1)],
                   next_ctid = 3, index_entries = [(1, [7]), (2, [1])] \<rparr>,
            command_id = 2, snapshot_cid = 2, tup_old = None, bistate = True,
            ninserts = 1, nupdates = 0, ndeletes = 0, scans = [] \<rparr>"
  have k: "kind ?del = PG_SQUEEZE_CHANGE_UPDATE_NEW \<or> kind ?del = PG_SQUEEZE_CHANGE_DELETE"
    by code_simp
  have n: "nchanges (buffered miss_buffer) \<noteq> 0" by code_simp
  have t: "tstore (buffered miss_buffer) =
             [stored PG_SQUEEZE_CHANGE_INSERT [1, 2, 3]] @ ?del # [stored PG_SQUEEZE_CHANGE_INSERT [4, 4, 4]]"
    by code_simp
  have b: "apply_changes ?env [1] (replay_start (fresh_state one_row_table))
             [stored PG_SQUEEZE_CHANGE_INSERT [1, 2, 3]] = Inr ?s" by code_simp
  have tk: "tup_key_of ?env (kind ?del) (tup_old ?s) (get_changed_tuple ?env ?del) = Inr (row_of [2, 2, 3])"
    by code_simp
  have f: "finalize_scan_key ?env (row_of [2, 2, 3]) [1] = Inr [2]" by code_simp
  have m: "index_getnext ?env (rel ?s) [2] (snapshot_cid ?s) = None" by code_simp
  from lookup_miss_is_fatal [OF k n t b tk f m] show ?thesis by simp
qed


subsection \<open>The command counter\<close>

lemma apply_insert_command_id:
  "command_id (state_after (apply_insert env st tup)) = command_id st"
  by (auto simp: apply_insert_def split: prod.splits)

lemma apply_update_or_delete_command_id:
  "command_id (state_after (apply_update_or_delete env key st k tup)) = command_id st"
  by (auto simp: apply_update_or_delete_def Let_def split: prod.splits sum.splits option.splits)

lemma apply_change_counter:
  "apply_change env key st change = Inr st' \<Longrightarrow>
     command_id st' = (if kind change = PG_SQUEEZE_CHANGE_UPDATE_OLD then command_id st
                       else command_id st + 1)
     \<and> (kind change \<noteq> PG_SQUEEZE_CHANGE_UPDATE_OLD \<longrightarrow> snapshot_cid st' = command_id st')"
  using apply_insert_command_id [of env "st\<lparr> bistate := False \<rparr>" "get_changed_tuple env change"]
        apply_insert_command_id [of env st "get_changed_tuple env change"]
        apply_update_or_delete_command_id [of env key "st\<lparr> bistate := False \<rparr>" "kind change" "get_changed_tuple env change"]
  by (auto simp: apply_change_def Let_def bistate_cleared split: if_splits sum.splits)

lemma apply_change_error_counter:
  "apply_change env key st change = Inl (e, s) \<Longrightarrow> command_id s = command_id st"
  using apply_insert_command_id [of env "st\<lparr> bistate := False \<rparr>" "get_changed_tuple env change"]
        apply_insert_command_id [of env st "get_changed_tuple env change"]
        apply_update_or_delete_command_id [of env key "st\<lparr> bistate := False \<rparr>" "kind change" "get_changed_tuple env change"]
  by (auto simp: apply_change_def Let_def bistate_cleared split: if_splits sum.splits)

lemma apply_changes_counter:
  "apply_changes env key st changes = Inr st' \<Longrightarrow>
     command_id st' =
       command_id st + length (filter (\<lambda>c. kind c \<noteq> PG_SQUEEZE_CHANGE_UPDATE_OLD) changes)"
proof (induction changes arbitrary: st)
  case Nil
  then show ?case by simp
next
  case (Cons c changes)
  from Cons.prems obtain s1 where s1: "apply_change env key st c = Inr s1"
    and rest: "apply_changes env key s1 changes = Inr st'"
    by (auto split: sum.splits)
  from apply_change_counter [OF s1] Cons.IH [OF rest] show ?case by simp
qed

lemma apply_changes_monotone:
  "command_id st \<le> command_id (state_after (apply_changes env key st changes))"
proof (induction changes arbitrary: st)
  case Nil
  then show ?case by simp
next
  case (Cons c changes)
  show ?case
  proof (cases "apply_change env key st c")
    case (Inl err)
    obtain e s where "err = (e, s)" by (cases err)
    with Inl apply_change_error_counter [of env key st c e s] show ?thesis by simp
  next
    case (Inr s1)
    from apply_change_counter [OF Inr] have "command_id st \<le> command_id s1" by simp
    with Cons.IH [of s1] Inr show ?thesis by simp
  qed
qed


text \<open>
  Claim C9. During a replay pass the visibility counter (the command counter, which the
  active snapshot follows) is advanced exactly once after each applied Insert, UpdateNew
  or Delete event and not after an UpdateOld event; over a pass it grows by the number of
  events that are not UpdateOld, and it never decreases, also in a pass that fails.
\<close>

theorem visibility_counter_advances:
  "(apply_change env key st change = Inr st1 \<longrightarrow>
      command_id st1 = (if kind change = PG_SQUEEZE_CHANGE_UPDATE_OLD then command_id st
                        else command_id st + 1)
      \<and> (kind change \<noteq> PG_SQUEEZE_CHANGE_UPDATE_OLD \<longrightarrow> snapshot_cid st1 = command_id st1))
   \<and> (apply_changes env key st changes = Inr st' \<longrightarrow>
        command_id st' =
          command_id st + length (filter (\<lambda>c. kind c \<noteq> PG_SQUEEZE_CHANGE_UPDATE_OLD) changes))
   \<and> command_id st \<le> command_id (state_after (apply_changes env key st changes))"
  using apply_change_counter [of env key st change st1]
        apply_changes_counter [of env key st changes st']
        apply_changes_monotone [of st env key changes]
  by blast


text \<open>
  At concrete inputs: an UpdateOld leaves the counter at 1, a Delete moves it and the
  snapshot to 2, a pass over one event of each kind ends at 4.
\<close>

theorem visibility_counter_advances_witness:
  "command_id (projr (apply_change (list_env True [1] 1024 steady_clock) [1]
       (fresh_state one_row_table) (stored PG_SQUEEZE_CHANGE_UPDATE_OLD [7, 2, 3]))) = 1
   \<and> command_id (projr (apply_change (list_env True [1] 1024 steady_clock) [1]
       (fresh_state one_row_table) (stored PG_SQUEEZE_CHANGE_DELETE [7, 2, 3]))) = 2
   \<and> snapshot_cid (projr (apply_change (list_env True [1] 1024 steady_clock) [1]
       (fresh_state one_row_table) (stored PG_SQUEEZE_CHANGE_DELETE [7, 2, 3]))) = 2
   \<and> command_id (projr (apply_changes (list_env True [1] 1024 steady_clock) [1]
       (fresh_state one_row_table) four_kinds)) = 4
   \<and> 1 \<le> command_id (state_after (apply_changes (list_env True [1] 1024 steady_clock) [1]
       (fresh_state one_row_table) miss_buffer))"
proof -
  let ?env = "list_env True [1] 1024 steady_clock"
  let ?st = "fresh_state one_row_table"
  let ?old = "stored PG_SQUEEZE_CHANGE_UPDATE_OLD [7, 2, 3]"
  let ?del = "stored PG_SQUEEZE_CHANGE_DELETE [7, 2, 3]"
  have c: "command_id ?st = 1" by code_simp
  have k: "kind ?old = PG_SQUEEZE_CHANGE_UPDATE_OLD" "kind ?del \<noteq> PG_SQUEEZE_CHANGE_UPDATE_OLD"
    by code_simp+
  have n: "length (filter (\<lambda>c. kind c \<noteq> PG_SQUEEZE_CHANGE_UPDATE_OLD) four_kinds) = 3"
    by code_simp
  have "\<not> isl (apply_change ?env [1] ?st ?old)" by code_simp
  then have e1: "apply_change ?env [1] ?st ?old = Inr (projr (apply_change ?env [1] ?st ?old))"
    by simp
  have "\<not> isl (apply_change ?env [1] ?st ?del)" by code_simp
  then have e2: "apply_change ?env [1] ?st ?del = Inr (projr (apply_change ?env [1] ?st ?del))"
    by simp
  have "\<not> isl (apply_changes ?env [1] ?st four_kinds)" by code_simp
  then have e3: "apply_changes ?env [1] ?st four_kinds = Inr (projr (apply_changes ?env [1] ?st four_kinds))"
    by simp
  from visibility_counter_advances [of ?env "[1]" ?st ?old _ four_kinds] e1 e3 k c n
  have p1: "command_id (projr (apply_change ?env [1] ?st ?old)) = 1"
           "command_id (projr (apply_changes ?env [1] ?st four_kinds)) = 4"
    by simp_all
  from visibility_counter_advances [of ?env "[1]" ?st ?del _ miss_buffer] e2 k c
  have p2: "command_id (projr (apply_change ?env [1] ?st ?del)) = 2"
           "snapshot_cid (projr (apply_change ?env [1] ?st ?del)) = 2"
           "1 \<le> command_id (state_after (apply_changes ?env [1] ?st miss_buffer))"
    by simp_all
  from p1 p2 show ?thesis by blast
qed

section \<open>Properties of the stored changes\<close>

subsection \<open>Retrieving a stored change\<close>

text \<open>
  Claim C4 says that decoding a stored change whose length header disagrees with the
  payload that is present fails with an error. \<^verbatim>\<open>get_changed_tuple\<close> compares no
  lengths and has no error exit: for a record whose \<^verbatim>\<open>t_len\<close> is 2 and which holds 4
  bytes of row image it returns a row of 2 bytes, and the replay inserts that row.
\<close>

theorem corrupt_record_counterexample:
  "unat (tup_data_len \<lparr> varsize = 44, kind = PG_SQUEEZE_CHANGE_INSERT, tup_data_len = 2,
                        tup_data_self = 0, tup_data_tableOid = 1, image = [1, 2, 3, 4] \<rparr>)
     \<noteq> length (image \<lparr> varsize = 44, kind = PG_SQUEEZE_CHANGE_INSERT, tup_data_len = 2,
                        tup_data_self = 0, tup_data_tableOid = 1, image = [1, 2, 3, 4] \<rparr>)
   \<and> get_changed_tuple (list_env True [1] 1024 steady_clock)
       \<lparr> varsize = 44, kind = PG_SQUEEZE_CHANGE_INSERT, tup_data_len = 2,
                         tup_data_self = 0, tup_data_tableOid = 1, image = [1, 2, 3, 4] \<rparr>
       = \<lparr> t_len = 2, t_self = 0, t_tableOid = 1, t_data = [1, 2] \<rparr>
   \<and> apply_concurrent_changes (list_env True [1] 1024 steady_clock) [1]
       \<lparr> relid = 1,
         tstore = [\<lparr> varsize = 44, kind = PG_SQUEEZE_CHANGE_INSERT, tup_data_len = 2,
                     tup_data_self = 0, tup_data_tableOid = 1, image = [1, 2, 3, 4] \<rparr>],
         nchanges = 1, data_size = 44 \<rparr>
       (fresh_state empty_table)
       = Inr (\<lparr> relid = 1, tstore = [], nchanges = 0, data_size = 0 \<rparr>,
              \<lparr> rel = \<lparr> table_rows = [(1, \<lparr> t_len = 2, t_self = 1, t_tableOid = 1, t_data = [1, 2] \<rparr>, 1)],
                       next_ctid = 2, index_entries = [(1, [1])] \<rparr>,
                command_id = 2, snapshot_cid = 1, tup_old = None, bistate = False,
                ninserts = 1, nupdates = 0, ndeletes = 0, scans = [] \<rparr>)"
  by code_simp


lemma get_changed_tuple_within:
  assumes "unat (tup_data_len change) \<le> length (image change)"
  shows "get_changed_tuple env change =
           \<lparr> t_len = tup_data_len change,
             t_self = tup_data_self change,
             t_tableOid = tup_data_tableOid change,
             t_data = take (unat (tup_data_len change)) (image change) \<rparr>"
  using assms by (simp add: get_changed_tuple_def)

lemma get_changed_tuple_beyond:
  assumes "length (image change) < unat (tup_data_len change)"
  shows "t_data (get_changed_tuple env change) =
           image change
           @ map (memory_behind env change)
               [0 ..< unat (tup_data_len change) - length (image change)]"
  using assms by (simp add: get_changed_tuple_def)

lemma apply_change_reads:
  assumes "kind change' = kind change"
      and "get_changed_tuple env change' = get_changed_tuple env change"
  shows "apply_change env key st change' = apply_change env key st change"
  using assms by (simp add: apply_change_def Let_def)


text \<open>
  Claim C4, amended. \<^verbatim>\<open>get_changed_tuple\<close> compares no lengths and has no
  \<open>CorruptRecord\<close> error. For every stored change that holds at least as many bytes of
  row image as its \<^verbatim>\<open>t_len\<close> field says, whatever its \<^verbatim>\<open>varsize\<close> says and
  whatever follows those bytes, it returns the row made of the header fields and the
  first \<^verbatim>\<open>t_len\<close> bytes behind the header, and the replay treats the record exactly
  as it treats the record cut to that length, under any \<^verbatim>\<open>varsize\<close>.
  \<^verbatim>\<open>store_change\<close> appends a record whose \<^verbatim>\<open>t_len\<close> agrees with the bytes it
  holds, and \<^verbatim>\<open>get_changed_tuple\<close> returns from that record the row that was stored
  (flattened when it had external values), provided the row image of that row has
  \<^verbatim>\<open>t_len\<close> bytes. (Nothing is said here of a record that holds fewer bytes than its
  \<^verbatim>\<open>t_len\<close>.)
\<close>

theorem stored_change_roundtrip:
  "(unat (tup_data_len change) \<le> length (image change) \<longrightarrow>
      get_changed_tuple env change
        = \<lparr> t_len = tup_data_len change,
            t_self = tup_data_self change,
            t_tableOid = tup_data_tableOid change,
            t_data = take (unat (tup_data_len change)) (image change) \<rparr>
      \<and> apply_change env key st change
          = apply_change env key st
              (change\<lparr> varsize := v,
                       image := take (unat (tup_data_len change)) (image change) \<rparr>))
   \<and> tstore (store_change env dstate k tup) = tstore dstate @ [make_change env k tup]
   \<and> (length (t_data (flat_tuple env tup)) = unat (t_len (flat_tuple env tup)) \<longrightarrow>
        length (image (make_change env k tup)) = unat (tup_data_len (make_change env k tup))
        \<and> get_changed_tuple env (make_change env k tup) = flat_tuple env tup)"
proof -
  have within: "get_changed_tuple env change
        = \<lparr> t_len = tup_data_len change,
            t_self = tup_data_self change,
            t_tableOid = tup_data_tableOid change,
            t_data = take (unat (tup_data_len change)) (image change) \<rparr>
      \<and> apply_change env key st change
          = apply_change env key st
              (change\<lparr> varsize := v,
                       image := take (unat (tup_data_len change)) (image change) \<rparr>)"
    if le: "unat (tup_data_len change) \<le> length (image change)"
  proof -
    let ?cut = "change\<lparr> varsize := v, image := take (unat (tup_data_len change)) (image change) \<rparr>"
    from le have "unat (tup_data_len ?cut) \<le> length (image ?cut)" by simp
    then have "get_changed_tuple env ?cut = get_changed_tuple env change"
      using le by (simp add: get_changed_tuple_within)
    then have "apply_change env key st ?cut = apply_change env key st change"
      by (intro apply_change_reads) simp_all
    with get_changed_tuple_within [OF le] show ?thesis by simp
  qed
  have stored: "tstore (store_change env dstate k tup) = tstore dstate @ [make_change env k tup]"
    by (simp add: store_change_def)
  have retrieved:
    "length (image (make_change env k tup)) = unat (tup_data_len (make_change env k tup))
        \<and> get_changed_tuple env (make_change env k tup) = flat_tuple env tup"
    if "length (t_data (flat_tuple env tup)) = unat (t_len (flat_tuple env tup))"
    using that by (simp add: get_changed_tuple_def make_change_def Let_def)
  from within stored retrieved show ?thesis by blast
qed


text \<open>
  At concrete inputs: a record whose \<^verbatim>\<open>t_len\<close> is 2 and which holds the 4 bytes
  \<open>[1, 2, 3, 4]\<close> gives the row \<open>[1, 2]\<close> and is replayed as the record that holds
  \<open>[1, 2]\<close>; the row \<open>[7, 2, 3]\<close> is stored and retrieved.
\<close>

theorem stored_change_roundtrip_witness:
  "get_changed_tuple (list_env True [1] 1024 steady_clock)
       \<lparr> varsize = 44, kind = PG_SQUEEZE_CHANGE_INSERT, tup_data_len = 2,
         tup_data_self = 0, tup_data_tableOid = 1, image = [1, 2, 3, 4] \<rparr>
     = \<lparr> t_len = 2, t_self = 0, t_tableOid = 1, t_data = [1, 2] \<rparr>
   \<and> apply_change (list_env True [1] 1024 steady_clock) [1] (fresh_state empty_table)
       \<lparr> varsize = 44, kind = PG_SQUEEZE_CHANGE_INSERT, tup_data_len = 2,
         tup_data_self = 0, tup_data_tableOid = 1, image = [1, 2, 3, 4] \<rparr>
     = apply_change (list_env True [1] 1024 steady_clock) [1] (fresh_state empty_table)
         \<lparr> varsize = 42, kind = PG_SQUEEZE_CHANGE_INSERT, tup_data_len = 2,
           tup_data_self = 0, tup_data_tableOid = 1, image = [1, 2] \<rparr>
   \<and> length (t_data (flat_tuple (list_env True [1] 1024 steady_clock) (row_of [7, 2, 3])))
       = unat (t_len (flat_tuple (list_env True [1] 1024 steady_clock) (row_of [7, 2, 3])))
   \<and> length (image (make_change (list_env True [1] 1024 steady_clock) PG_SQUEEZE_CHANGE_DELETE (row_of [7, 2, 3]))) = 3
   \<and> tup_data_len (make_change (list_env True [1] 1024 steady_clock) PG_SQUEEZE_CHANGE_DELETE (row_of [7, 2, 3])) = 3
   \<and> get_changed_tuple (list_env True [1] 1024 steady_clock)
       (make_change (list_env True [1] 1024 steady_clock) PG_SQUEEZE_CHANGE_DELETE (row_of [7, 2, 3]))
       = \<lparr> t_len = 3, t_self = 0, t_tableOid = 1, t_data = [7, 2, 3] \<rparr>"
proof -
  let ?env = "list_env True [1] 1024 steady_clock"
  let ?long = "\<lparr> varsize = 44, kind = PG_SQUEEZE_CHANGE_INSERT, tup_data_len = 2,
                 tup_data_self = 0, tup_data_tableOid = 1, image = [1, 2, 3, 4] \<rparr>"
  have h1: "unat (tup_data_len ?long) \<le> length (image ?long)" by code_simp
  have v1: "\<lparr> t_len = tup_data_len ?long, t_self = tup_data_self ?long,
              t_tableOid = tup_data_tableOid ?long,
              t_data = take (unat (tup_data_len ?long)) (image ?long) \<rparr>
            = \<lparr> t_len = 2, t_self = 0, t_tableOid = 1, t_data = [1, 2] \<rparr>" by code_simp
  have u1: "?long\<lparr> varsize := 42, image := take (unat (tup_data_len ?long)) (image ?long) \<rparr>
              = \<lparr> varsize = 42, kind = PG_SQUEEZE_CHANGE_INSERT, tup_data_len = 2,
                  tup_data_self = 0, tup_data_tableOid = 1, image = [1, 2] \<rparr>" by code_simp
  have h3: "length (t_data (flat_tuple ?env (row_of [7, 2, 3])))
             = unat (t_len (flat_tuple ?env (row_of [7, 2, 3])))" by code_simp
  have f3: "flat_tuple ?env (row_of [7, 2, 3]) = \<lparr> t_len = 3, t_self = 0, t_tableOid = 1, t_data = [7, 2, 3] \<rparr>"
    by code_simp
  have l3: "tup_data_len (make_change ?env PG_SQUEEZE_CHANGE_DELETE (row_of [7, 2, 3])) = 3"
    by code_simp
  note T1 = stored_change_roundtrip
              [where env = ?env and change = ?long and key = "[1]"
                 and st = "fresh_state empty_table" and v = 42]
  note T3 = stored_change_roundtrip
              [where env = ?env and k = PG_SQUEEZE_CHANGE_DELETE and tup = "row_of [7, 2, 3]"]
  from T1 h1 have c1:
    "get_changed_tuple ?env ?long
       = \<lparr> t_len = tup_data_len ?long, t_self = tup_data_self ?long,
           t_tableOid = tup_data_tableOid ?long,
           t_data = take (unat (tup_data_len ?long)) (image ?long) \<rparr>"
    "apply_change ?env [1] (fresh_state empty_table) ?long
       = apply_change ?env [1] (fresh_state empty_table)
           (?long\<lparr> varsize := 42, image := take (unat (tup_data_len ?long)) (image ?long) \<rparr>)"
    by blast+
  from T3 h3 have c3:
    "length (image (make_change ?env PG_SQUEEZE_CHANGE_DELETE (row_of [7, 2, 3])))
       = unat (tup_data_len (make_change ?env PG_SQUEEZE_CHANGE_DELETE (row_of [7, 2, 3])))"
    "get_changed_tuple ?env (make_change ?env PG_SQUEEZE_CHANGE_DELETE (row_of [7, 2, 3]))
       = flat_tuple ?env (row_of [7, 2, 3])"
    by blast+
  from c1 v1 u1 have d1:
    "get_changed_tuple ?env ?long = \<lparr> t_len = 2, t_self = 0, t_tableOid = 1, t_data = [1, 2] \<rparr>"
    "apply_change ?env [1] (fresh_state empty_table) ?long
       = apply_change ?env [1] (fresh_state empty_table)
           \<lparr> varsize = 42, kind = PG_SQUEEZE_CHANGE_INSERT, tup_data_len = 2,
             tup_data_self = 0, tup_data_tableOid = 1, image = [1, 2] \<rparr>"
    by (simp_all only:)
  from c3 l3 f3 have d3:
    "length (image (make_change ?env PG_SQUEEZE_CHANGE_DELETE (row_of [7, 2, 3]))) = 3"
    "get_changed_tuple ?env (make_change ?env PG_SQUEEZE_CHANGE_DELETE (row_of [7, 2, 3]))
       = \<lparr> t_len = 3, t_self = 0, t_tableOid = 1, t_data = [7, 2, 3] \<rparr>"
    by simp_all
  from d1 h3 d3 l3 show ?thesis by blast
qed


subsection \<open>Old rows and new rows in the buffer\<close>

lemma plugin_change_stores:
  "plugin_change env dstate rd_id change = Inr dstate' \<Longrightarrow>
     dstate' = store_changes env dstate (captured_changes (relid dstate) (rd_id, change))"
  by (auto simp: plugin_change_def captured_changes_def store_changes_def
           split: if_splits ReorderBufferChangeType.splits option.splits)

lemma store_change_relid [simp]: "relid (store_change env dstate k tup) = relid dstate"
  by (simp add: store_change_def)

lemma store_changes_relid [simp]: "relid (store_changes env dstate kts) = relid dstate"
  unfolding store_changes_def by (induction kts arbitrary: dstate) auto

lemma store_changes_append:
  "store_changes env dstate (xs @ ys) = store_changes env (store_changes env dstate xs) ys"
  by (simp add: store_changes_def)


lemma process_record_stores:
  "LogicalDecodingProcessRecord env dstate changes = Inr dstate' \<Longrightarrow>
     dstate' = store_changes env dstate (concat (map (captured_changes (relid dstate)) changes))"
proof (induction changes arbitrary: dstate)
  case Nil
  then show ?case by (simp add: store_changes_def)
next
  case (Cons c changes)
  obtain rd_id change where c: "c = (rd_id, change)" by (cases c)
  from Cons.prems c obtain d1 where
    d1: "plugin_change env dstate rd_id change = Inr d1"
    and rest: "LogicalDecodingProcessRecord env d1 changes = Inr dstate'"
    by (auto split: sum.splits)
  from plugin_change_stores [OF d1]
  have e1: "d1 = store_changes env dstate (captured_changes (relid dstate) c)" by (simp add: c)
  then have "relid d1 = relid dstate" by simp
  with Cons.IH [OF rest] e1 show ?case by (simp add: store_changes_append)
qed

lemma kind_make_change [simp]: "kind (make_change env k tup) = k"
  by (simp add: make_change_def Let_def)













section \<open>Properties of the decoder and the coordinator\<close>

subsection \<open>The clock and the loop\<close>

lemma time_elapsed_iff:
  "fst (processing_time_elapsed env (Some u) n) = timeval_le u (gettimeofday env n)"
  by (auto simp: processing_time_elapsed_def timeval_le_def Let_def)

lemma time_elapsed_reads:
  "snd (processing_time_elapsed env mc n) = (case mc of None \<Rightarrow> n | Some u \<Rightarrow> Suc n)"
  by (auto simp: processing_time_elapsed_def Let_def split: option.splits)

lemma time_elapsed_None [simp]:
  "processing_time_elapsed env None n = (False, n)"
  by (simp add: processing_time_elapsed_def)

lemma time_elapsed_Some:
  "processing_time_elapsed env (Some u) n = (timeval_le u (gettimeofday env n), Suc n)"
  by (auto simp: processing_time_elapsed_def timeval_le_def Let_def)

lemma timeval_le_trans:
  "timeval_le a b \<Longrightarrow> timeval_le b c \<Longrightarrow> timeval_le a c"
  by (auto simp: timeval_le_def)

lemma confirm_received_fields [simp]:
  "EndRecPtr (confirm_received c) = EndRecPtr c"
  "output_writer_private (confirm_received c) = output_writer_private c"
  "clock_reads (confirm_received c) = clock_reads c"
  by (simp_all add: confirm_received_def)

lemma decode_loop_stays:
  "\<not> decode_more env end_of_wal sp c \<Longrightarrow>
     decode_loop env end_of_wal mc wal sp c = Some (Inr (wal, sp, c, LoopCondition))"
  by (cases wal) simp_all

lemma decode_loop_exit:
  "decode_loop env end_of_wal mc wal sp c = Some (Inr (wal', sp', c', how)) \<Longrightarrow>
     (how = LoopCondition \<longrightarrow> \<not> decode_more env end_of_wal sp' c')
     \<and> (how = DeadlineBreak \<longrightarrow>
          sp' = InvalidXLogRecPtr
          \<and> (\<exists>u n. mc = Some u \<and> clock_reads c' = Suc n \<and> timeval_le u (gettimeofday env n)))
     \<and> ((sp' = sp \<and> c' = c \<and> wal' = wal) \<or> sp' = InvalidXLogRecPtr)"
proof (induction wal arbitrary: sp c)
  case Nil
  then show ?case by (auto split: if_splits)
next
  case (Cons r wal)
  show ?case
  proof (cases "decode_more env end_of_wal sp c")
    case False
    with Cons.prems show ?thesis by auto
  next
    case True
    with Cons.prems obtain c1 where c1: "decode_record env c r = Inr c1"
      by (auto split: sum.splits)
    obtain elapsed n where pe: "processing_time_elapsed env mc (clock_reads c1) = (elapsed, n)"
      by (cases "processing_time_elapsed env mc (clock_reads c1)")
    show ?thesis
    proof (cases elapsed)
      case True
      with \<open>decode_more env end_of_wal sp c\<close> c1 pe Cons.prems
      have r: "wal' = wal" "sp' = InvalidXLogRecPtr" "c' = c1\<lparr> clock_reads := n \<rparr>" "how = DeadlineBreak"
        by auto
      from pe True obtain u where u: "mc = Some u" by (cases mc) auto
      with pe True time_elapsed_iff [of env u "clock_reads c1"] time_elapsed_reads [of env mc "clock_reads c1"]
      have "timeval_le u (gettimeofday env (clock_reads c1))" "n = Suc (clock_reads c1)"
        by auto
      with r u show ?thesis by auto
    next
      case False
      with \<open>decode_more env end_of_wal sp c\<close> c1 pe Cons.prems
      have "decode_loop env end_of_wal mc wal InvalidXLogRecPtr (c1\<lparr> clock_reads := n \<rparr>)
              = Some (Inr (wal', sp', c', how))" by auto
      from Cons.IH [OF this] show ?thesis by auto
    qed
  qed
qed

lemma decode_loop_step:
  assumes "decode_loop env end_of_wal mc (r # wal) sp c = Some (Inr res)"
      and "decode_more env end_of_wal sp c"
  shows "\<exists>c1 elapsed n.
           decode_record env c r = Inr c1
           \<and> processing_time_elapsed env mc (clock_reads c1) = (elapsed, n)
           \<and> (if elapsed then res = (wal, InvalidXLogRecPtr, c1\<lparr> clock_reads := n \<rparr>, DeadlineBreak)
              else decode_loop env end_of_wal mc wal InvalidXLogRecPtr (c1\<lparr> clock_reads := n \<rparr>)
                     = Some (Inr res))"
  using assms by (auto split: sum.splits prod.splits if_splits)


lemma decode_loop_returns:
  "\<exists>r \<in> set wal. ends_decoding end_of_wal r \<Longrightarrow>
     decode_loop env end_of_wal mc wal sp c \<noteq> None"
proof (induction wal arbitrary: sp c)
  case Nil
  then show ?case by simp
next
  case (Cons r wal)
  show ?case
  proof (cases "decode_more env end_of_wal sp c")
    case False
    then show ?thesis by simp
  next
    case more: True
    show ?thesis
    proof (cases "decode_record env c r")
      case (Inl e)
      with more show ?thesis by simp
    next
      case (Inr c1)
      obtain elapsed n where pe: "processing_time_elapsed env mc (clock_reads c1) = (elapsed, n)"
        by (cases "processing_time_elapsed env mc (clock_reads c1)")
      show ?thesis
      proof (cases elapsed)
        case True
        with more Inr pe show ?thesis by simp
      next
        case False
        show ?thesis
        proof (cases "ends_decoding end_of_wal r")
          case True
          with Inr have "\<not> wal_below_end end_of_wal InvalidXLogRecPtr (c1\<lparr> clock_reads := n \<rparr>)"
            by (auto simp: ends_decoding_def decode_record_def wal_below_end_def
                     split: XLogRead.splits sum.splits)
          then have "\<not> decode_more env end_of_wal InvalidXLogRecPtr (c1\<lparr> clock_reads := n \<rparr>)"
            by (simp add: decode_more_def)
          from decode_loop_stays [OF this] more Inr pe False show ?thesis by simp
        next
          case no: False
          with Cons.prems have "\<exists>r \<in> set wal. ends_decoding end_of_wal r" by simp
          from Cons.IH [OF this] more Inr pe False show ?thesis by simp
        qed
      qed
    qed
  qed
qed

subsection \<open>Decoding rows of 600000 bytes\<close>

lemma big_env_limit: "maintenance_wm_bytes big_env = 1048576"
  by (simp add: maintenance_wm_bytes_def big_env_def list_env_def)

lemma big_row_size: "change_size big_env (flat_tuple big_env (big_row b)) = 600040"
  by (simp add: change_size_def flat_tuple_def big_env_def list_env_def big_row_def)

lemma big_row_stored_size: "stored_size big_env (make_change big_env k (big_row b)) = 600040"
  by (simp add: stored_size_make_change big_row_size)

lemma big_plugin_insert:
  "relid d = 1 \<Longrightarrow>
     plugin_change big_env d 1 (big_insert b) =
       Inr (store_change big_env d PG_SQUEEZE_CHANGE_INSERT (big_row b))"
  by (simp add: plugin_change_def big_insert_def)

lemma big_plugin_update:
  "relid d = 1 \<Longrightarrow>
     plugin_change big_env d 1 (big_update a b) =
       Inr (store_change big_env
              (store_change big_env d PG_SQUEEZE_CHANGE_UPDATE_OLD (big_row a))
              PG_SQUEEZE_CHANGE_UPDATE_NEW (big_row b))"
  by (simp add: plugin_change_def big_update_def)

lemma big_store:
  "store_change big_env d k (big_row b) =
     d\<lparr> tstore := tstore d @ [make_change big_env k (big_row b)],
        nchanges := Suc (nchanges d), data_size := data_size d + 600040 \<rparr>"
  by (simp add: store_change_def big_row_size)

lemmas big_run =
  big_env_limit big_plugin_insert big_plugin_update big_store
  decode_concurrent_changes_def decode_more_def wal_below_end_def decode_record_def
  confirm_received_def InvalidXLogRecPtr_def fresh_ctx_def buffered_def


subsection \<open>The result of decoding\<close>



subsection \<open>The deadline in the coordinator\<close>

text \<open>
  Claim C6 says that in every iteration of the coordinator in which the decoder has
  stopped because the deadline was reached, the coordinator returns false at once,
  without a catalog check or a replay. The coordinator does not learn from the decoder
  why it stopped: line 64 reads the clock again. When the clock has been set back
  between the two readings, the decoder has left its loop at the deadline (with the
  reader at 120, below the end bound 200) and the coordinator, which finds the deadline
  not reached, checks the catalog, replays the buffered insert, decodes again and
  returns true.
\<close>

theorem deadline_stop_counterexample:
  "decode_loop (list_env True [1] 1024 clock_set_back) 200 (Some \<lparr> tv_sec = 1, tv_usec = 0 \<rparr>)
     two_record_wal 100 fresh_ctx
   = Some (Inr ([XLogRecord 200 []], 0,
                \<lparr> EndRecPtr = 120,
                  output_writer_private = buffered [stored PG_SQUEEZE_CHANGE_INSERT [1, 2, 3]],
                  confirmed_flush = 0, clock_reads = 1 \<rparr>,
                DeadlineBreak))
   \<and> decode_concurrent_changes (list_env True [1] 1024 clock_set_back) 200
       (Some \<lparr> tv_sec = 1, tv_usec = 0 \<rparr>) two_record_wal 100 fresh_ctx
     = Some (Inr ([XLogRecord 200 []], 0,
                  \<lparr> EndRecPtr = 120,
                    output_writer_private = buffered [stored PG_SQUEEZE_CHANGE_INSERT [1, 2, 3]],
                    confirmed_flush = 120, clock_reads = 1 \<rparr>,
                  False))
   \<and> process_concurrent_changes (Suc (Suc 0)) (list_env True [1] 1024 clock_set_back) [1] 200
       (Some \<lparr> tv_sec = 1, tv_usec = 0 \<rparr>)
       \<lparr> wal_ahead = two_record_wal, start_pointer = 100, decoding = fresh_ctx,
         replaying = fresh_state one_row_table, catalog_checks = 0 \<rparr>
     = Some (Inr (True,
                  \<lparr> wal_ahead = [], start_pointer = 0,
                    decoding =
                      \<lparr> EndRecPtr = 200, output_writer_private = buffered [],
                        confirmed_flush = 200, clock_reads = 4 \<rparr>,
                    replaying =
                      \<lparr> rel = \<lparr> table_rows =
                                  [(1, \<lparr> t_len = 3, t_self = 1, t_tableOid = 1,
                                         t_data = [7, 2, 3] \<rparr>, 0),
                                   (2, \<lparr> t_len = 3, t_self = 2, t_tableOid = 1,
                                         t_data = [1, 2, 3] \<rparr>, 1)],
                                next_ctid = 3, index_entries = [(1, [7]), (2, [1])] \<rparr>,
                        command_id = 2, snapshot_cid = 1, tup_old = None, bistate = False,
                        ninserts = 1, nupdates = 0, ndeletes = 0, scans = [] \<rparr>,
                    catalog_checks = 1 \<rparr>))"
  by code_simp


text \<open>
  Claim C6, amended. In an iteration of the coordinator in which the decoder has left
  its loop because the deadline was reached, and in which the clock, when the
  coordinator reads it again, has not gone back behind the decoder's last reading, the
  coordinator returns false at once: the catalog is not checked and nothing is replayed,
  the state of the replay is as before and the buffer is as the decoder left it.
\<close>

theorem deadline_stop_returns_false:
  assumes "decode_loop env end_of_wal mc (wal_ahead cs) (start_pointer cs) (decoding cs)
             = Some (Inr (wal', sp', c', DeadlineBreak))"
      and "timeval_le (gettimeofday env (clock_reads c' - 1)) (gettimeofday env (clock_reads c'))"
  shows "process_concurrent_changes (Suc fuel) env key end_of_wal mc cs =
           Some (Inr (False,
                      cs\<lparr> wal_ahead := wal', start_pointer := sp',
                          decoding := (confirm_received c')\<lparr> clock_reads := Suc (clock_reads c') \<rparr> \<rparr>))"
proof -
  from decode_loop_exit [OF assms(1)] obtain u n where
    u: "mc = Some u" and n: "clock_reads c' = Suc n" and le: "timeval_le u (gettimeofday env n)"
    by auto
  from assms(2) n have "timeval_le (gettimeofday env n) (gettimeofday env (Suc n))"
    by simp
  with le have "timeval_le u (gettimeofday env (Suc n))" by (rule timeval_le_trans)
  with u n have pe: "processing_time_elapsed env mc (clock_reads (confirm_received c'))
                       = (True, Suc (clock_reads c'))"
    by (simp add: time_elapsed_Some)
  from assms(1) have "decode_concurrent_changes env end_of_wal mc (wal_ahead cs) (start_pointer cs) (decoding cs)
           = Some (Inr (wal', sp', confirm_received c',
                      EndRecPtr c' = InvalidXLogRecPtr \<or> end_of_wal \<le> EndRecPtr c'))"
    by (simp add: decode_concurrent_changes_def)
  with pe show ?thesis by simp
qed


text \<open>
  At a concrete input: the deadline is reached behind the second record; the three
  buffered changes stay in the buffer.
\<close>

theorem deadline_stop_returns_false_witness:
  "timeval_le (gettimeofday (list_env True [1] 1024 steady_clock) 1)
              (gettimeofday (list_env True [1] 1024 steady_clock) 2)
   \<and> process_concurrent_changes (Suc 0) (list_env True [1] 1024 steady_clock) [1] 200
       (Some \<lparr> tv_sec = 1, tv_usec = 0 \<rparr>) sample_session
     = Some (Inr (False,
                  \<lparr> wal_ahead = [XLogRecord 170 [], XLogRecord 200 [], XLogRecord 250 []],
                    start_pointer = 0,
                    decoding =
                      \<lparr> EndRecPtr = 150,
                        output_writer_private =
                          buffered [stored PG_SQUEEZE_CHANGE_INSERT [1, 2, 3],
                                    stored PG_SQUEEZE_CHANGE_UPDATE_OLD [7, 2, 3],
                                    stored PG_SQUEEZE_CHANGE_UPDATE_NEW [7, 5, 5]],
                        confirmed_flush = 150, clock_reads = 3 \<rparr>,
                    replaying = fresh_state one_row_table, catalog_checks = 0 \<rparr>))"
proof -
  let ?env = "list_env True [1] 1024 steady_clock"
  let ?b = "buffered [stored PG_SQUEEZE_CHANGE_INSERT [1, 2, 3],
                      stored PG_SQUEEZE_CHANGE_UPDATE_OLD [7, 2, 3],
                      stored PG_SQUEEZE_CHANGE_UPDATE_NEW [7, 5, 5]]"
  let ?c2 = "\<lparr> EndRecPtr = 150, output_writer_private = ?b, confirmed_flush = 0, clock_reads = 2 \<rparr>"
  have clock: "timeval_le (gettimeofday ?env (clock_reads ?c2 - 1)) (gettimeofday ?env (clock_reads ?c2))"
    by code_simp
  have clock': "timeval_le (gettimeofday ?env 1) (gettimeofday ?env 2)"
    by code_simp
  have r: "decode_loop ?env 200 (Some \<lparr> tv_sec = 1, tv_usec = 0 \<rparr>)
             (wal_ahead sample_session) (start_pointer sample_session) (decoding sample_session)
           = Some (Inr ([XLogRecord 170 [], XLogRecord 200 [], XLogRecord 250 []], 0, ?c2,
                        DeadlineBreak))" by code_simp
  have f: "sample_session\<lparr> wal_ahead := [XLogRecord 170 [], XLogRecord 200 [], XLogRecord 250 []],
                           start_pointer := 0,
                           decoding := (confirm_received ?c2)\<lparr> clock_reads := Suc (clock_reads ?c2) \<rparr> \<rparr>
           = \<lparr> wal_ahead = [XLogRecord 170 [], XLogRecord 200 [], XLogRecord 250 []],
               start_pointer = 0,
               decoding = \<lparr> EndRecPtr = 150, output_writer_private = ?b,
                            confirmed_flush = 150, clock_reads = 3 \<rparr>,
               replaying = fresh_state one_row_table, catalog_checks = 0 \<rparr>" by code_simp
  from deadline_stop_returns_false [OF r clock, of 0 "[1]"] f clock' show ?thesis by simp
qed


subsection \<open>The limit of the buffer\<close>

lemma decode_record_stores:
  "decode_record env c r = Inr c1 \<Longrightarrow>
     output_writer_private c1 =
       store_changes env (output_writer_private c)
         (record_changes (relid (output_writer_private c)) r)"
  by (auto simp: decode_record_def record_changes_def store_changes_def
           dest: process_record_stores split: XLogRead.splits sum.splits)

lemma store_changes_single:
  "store_changes env d [(k, tup)] = store_change env d k tup"
  by (simp add: store_changes_def)

lemma decode_record_single:
  assumes "decode_record env c r = Inr c1"
      and "length (record_changes (relid (output_writer_private c)) r) \<le> 1"
  shows "output_writer_private c1 = output_writer_private c
         \<or> (\<exists>k tup. record_changes (relid (output_writer_private c)) r = [(k, tup)]
                \<and> output_writer_private c1 = store_change env (output_writer_private c) k tup)"
proof (cases "record_changes (relid (output_writer_private c)) r")
  case Nil
  with decode_record_stores [OF assms(1)] show ?thesis by (simp add: store_changes_def)
next
  case (Cons kt kts)
  with assms(2) have "kts = []" by simp
  with Cons decode_record_stores [OF assms(1)] show ?thesis
    by (cases kt) (simp add: store_changes_single)
qed

lemma unat_change_size:
  "unat (change_size env tup) \<le> unat (change_hdr_size env) + unat (t_len tup)"
proof -
  have "unat (change_size env tup)
          \<le> unat (change_hdr_size env) + unat (ucast (t_len tup) :: 64 word)"
    unfolding change_size_def by (simp add: unat_word_ariths)
  also have "unat (ucast (t_len tup) :: 64 word) = unat (t_len tup)"
    by (simp add: unsigned_ucast_eq take_bit_nat_eq_self_iff)
       (rule less_trans [OF unsigned_less], simp)
  finally show ?thesis .
qed

lemma unat_change_size_bound:
  "unat (change_hdr_size env) < 2 ^ 32 \<Longrightarrow> unat (change_size env tup) < 2 ^ 33"
proof -
  assume "unat (change_hdr_size env) < 2 ^ 32"
  moreover have "unat (t_len tup) < 2 ^ 32"
    using unsigned_less [of "t_len tup", where 'a = nat] by simp
  ultimately show ?thesis using unat_change_size [of env tup] by simp
qed

lemma data_size_store_change:
  "data_size (store_change env d k tup) = data_size d + change_size env (flat_tuple env tup)"
  by (simp add: store_change_def)

lemma tstore_store_change:
  "tstore (store_change env d k tup) = tstore d @ [make_change env k tup]"
  by (simp add: store_change_def)

lemma decode_loop_overshoot:
  assumes "decode_loop env end_of_wal mc wal sp c = Some (Inr (wal', sp', c', how))"
      and "\<forall>r \<in> set wal. length (record_changes (relid (output_writer_private c)) r) \<le> 1"
  shows "output_writer_private c' = output_writer_private c
         \<or> (tstore (output_writer_private c') \<noteq> []
            \<and> unat (data_size (output_writer_private c'))
                < unat (maintenance_wm_bytes env)
                  + unat (stored_size env (last (tstore (output_writer_private c')))))"
  using assms
proof (induction wal arbitrary: sp c)
  case Nil
  then show ?case by (auto split: if_splits)
next
  case (Cons r wal)
  let ?d = "output_writer_private c"
  show ?case
  proof (cases "decode_more env end_of_wal sp c")
    case False
    with Cons.prems(1) show ?thesis by simp
  next
    case True
    from decode_loop_step [OF Cons.prems(1) True] obtain c1 elapsed n where
      c1: "decode_record env c r = Inr c1"
      and pe: "processing_time_elapsed env mc (clock_reads c1) = (elapsed, n)"
      and nxt: "if elapsed then (wal', sp', c', how) = (wal, InvalidXLogRecPtr, c1\<lparr> clock_reads := n \<rparr>, DeadlineBreak)
                else decode_loop env end_of_wal mc wal InvalidXLogRecPtr (c1\<lparr> clock_reads := n \<rparr>)
                       = Some (Inr (wal', sp', c', how))"
      by blast
    let ?c1 = "c1\<lparr> clock_reads := n \<rparr>"
    from Cons.prems(2) have one: "length (record_changes (relid ?d) r) \<le> 1" by simp
    have rel1: "relid (output_writer_private ?c1) = relid ?d"
      using decode_record_stores [OF c1] by simp
    have after: "output_writer_private c' = output_writer_private ?c1
         \<or> (tstore (output_writer_private c') \<noteq> []
            \<and> unat (data_size (output_writer_private c'))
                < unat (maintenance_wm_bytes env)
                  + unat (stored_size env (last (tstore (output_writer_private c')))))"
    proof (cases elapsed)
      case True
      with nxt show ?thesis by simp
    next
      case False
      with nxt have "decode_loop env end_of_wal mc wal InvalidXLogRecPtr ?c1
                       = Some (Inr (wal', sp', c', how))" by simp
      moreover from Cons.prems(2) rel1
      have "\<forall>r \<in> set wal. length (record_changes (relid (output_writer_private ?c1)) r) \<le> 1"
        by simp
      ultimately show ?thesis by (rule Cons.IH)
    qed
    from decode_record_single [OF c1 one] show ?thesis
    proof
      assume "output_writer_private c1 = ?d"
      with after show ?thesis by simp
    next
      assume "\<exists>k tup. record_changes (relid ?d) r = [(k, tup)]
                \<and> output_writer_private c1 = store_change env ?d k tup"
      then obtain k tup where st: "output_writer_private c1 = store_change env ?d k tup"
        by blast
      from True have "unat (data_size ?d) < unat (maintenance_wm_bytes env)"
        by (simp add: decode_more_def word_less_nat_alt)
      moreover have "unat (data_size ?d + change_size env (flat_tuple env tup))
                       \<le> unat (data_size ?d) + unat (change_size env (flat_tuple env tup))"
        by (simp add: unat_word_ariths)
      ultimately have "unat (data_size (output_writer_private ?c1))
              < unat (maintenance_wm_bytes env)
                + unat (stored_size env (last (tstore (output_writer_private ?c1))))"
        using st by (simp add: data_size_store_change tstore_store_change stored_size_make_change)
      moreover have "tstore (output_writer_private ?c1) \<noteq> []"
        using st by (simp add: tstore_store_change)
      ultimately show ?thesis using after by auto
    qed
  qed
qed

lemma decode_loop_one_more:
  assumes "decode_loop env end_of_wal mc wal sp c = Some (Inr (wal', sp', c', how))"
      and "\<forall>r \<in> set wal. length (record_changes (relid (output_writer_private c)) r) \<le> 1"
      and "\<forall>r \<in> set wal. \<forall>kt \<in> set (record_changes (relid (output_writer_private c)) r).
             unat (maintenance_wm_bytes env) < 2 * unat (change_size env (flat_tuple env (snd kt)))"
      and "unat (change_hdr_size env) < 2 ^ 32"
      and "unat (maintenance_wm_bytes env) < 2 * unat (data_size (output_writer_private c))"
      and "unat (data_size (output_writer_private c)) < 2 ^ 33"
  shows "length (tstore (output_writer_private c'))
           \<le> Suc (length (tstore (output_writer_private c)))"
  using assms
proof (induction wal arbitrary: sp c)
  case Nil
  then show ?case by (auto split: if_splits)
next
  case (Cons r wal)
  let ?d = "output_writer_private c"
  show ?case
  proof (cases "decode_more env end_of_wal sp c")
    case False
    with Cons.prems(1) show ?thesis by simp
  next
    case True
    from decode_loop_step [OF Cons.prems(1) True] obtain c1 elapsed n where
      c1: "decode_record env c r = Inr c1"
      and pe: "processing_time_elapsed env mc (clock_reads c1) = (elapsed, n)"
      and nxt: "if elapsed then (wal', sp', c', how) = (wal, InvalidXLogRecPtr, c1\<lparr> clock_reads := n \<rparr>, DeadlineBreak)
                else decode_loop env end_of_wal mc wal InvalidXLogRecPtr (c1\<lparr> clock_reads := n \<rparr>)
                       = Some (Inr (wal', sp', c', how))"
      by blast
    let ?c1 = "c1\<lparr> clock_reads := n \<rparr>"
    from Cons.prems(2) have one: "length (record_changes (relid ?d) r) \<le> 1" by simp
    have rel1: "relid (output_writer_private ?c1) = relid ?d"
      using decode_record_stores [OF c1] by simp
    from decode_record_single [OF c1 one] show ?thesis
    proof
      assume same: "output_writer_private c1 = ?d"
      show ?thesis
      proof (cases elapsed)
        case True
        with nxt same show ?thesis by simp
      next
        case False
        with nxt have "decode_loop env end_of_wal mc wal InvalidXLogRecPtr ?c1
                         = Some (Inr (wal', sp', c', how))" by simp
        from Cons.IH [OF this] Cons.prems(2-6) same show ?thesis by simp
      qed
    next
      assume "\<exists>k tup. record_changes (relid ?d) r = [(k, tup)]
                \<and> output_writer_private c1 = store_change env ?d k tup"
      then obtain k tup where rc: "record_changes (relid ?d) r = [(k, tup)]"
        and st: "output_writer_private c1 = store_change env ?d k tup"
        by blast
      let ?s = "change_size env (flat_tuple env tup)"
      from Cons.prems(3) rc have big: "unat (maintenance_wm_bytes env) < 2 * unat ?s" by simp
      from unat_change_size_bound [OF Cons.prems(4)] have b: "unat ?s < 2 ^ 33" .
      with Cons.prems(6) have "unat (data_size ?d) + unat ?s < 2 ^ LENGTH(64)" by simp
      then have "unat (data_size ?d + ?s) = unat (data_size ?d) + unat ?s"
        by (simp only: unat_add_lem)
      with big Cons.prems(5) have "\<not> data_size ?d + ?s < maintenance_wm_bytes env"
        by (simp add: word_less_nat_alt)
      with st have full: "\<not> decode_more env end_of_wal InvalidXLogRecPtr ?c1"
        by (simp add: decode_more_def data_size_store_change)
      have "c' = ?c1"
      proof (cases elapsed)
        case True
        with nxt show ?thesis by simp
      next
        case False
        with nxt decode_loop_stays [OF full, of mc wal] show ?thesis by simp
      qed
      with st show ?thesis by (simp add: tstore_store_change)
    qed
  qed
qed

lemma decode_loop_two_more:
  assumes "decode_loop env end_of_wal mc wal sp c = Some (Inr (wal', sp', c', how))"
      and "\<forall>r \<in> set wal. length (record_changes (relid (output_writer_private c)) r) \<le> 1"
      and "\<forall>r \<in> set wal. \<forall>kt \<in> set (record_changes (relid (output_writer_private c)) r).
             unat (maintenance_wm_bytes env) < 2 * unat (change_size env (flat_tuple env (snd kt)))"
      and "unat (change_hdr_size env) < 2 ^ 32"
      and "data_size (output_writer_private c) = 0"
  shows "length (tstore (output_writer_private c'))
           \<le> Suc (Suc (length (tstore (output_writer_private c))))"
  using assms
proof (induction wal arbitrary: sp c)
  case Nil
  then show ?case by (auto split: if_splits)
next
  case (Cons r wal)
  let ?d = "output_writer_private c"
  show ?case
  proof (cases "decode_more env end_of_wal sp c")
    case False
    with Cons.prems(1) show ?thesis by simp
  next
    case True
    from decode_loop_step [OF Cons.prems(1) True] obtain c1 elapsed n where
      c1: "decode_record env c r = Inr c1"
      and pe: "processing_time_elapsed env mc (clock_reads c1) = (elapsed, n)"
      and nxt: "if elapsed then (wal', sp', c', how) = (wal, InvalidXLogRecPtr, c1\<lparr> clock_reads := n \<rparr>, DeadlineBreak)
                else decode_loop env end_of_wal mc wal InvalidXLogRecPtr (c1\<lparr> clock_reads := n \<rparr>)
                       = Some (Inr (wal', sp', c', how))"
      by blast
    let ?c1 = "c1\<lparr> clock_reads := n \<rparr>"
    from Cons.prems(2) have one: "length (record_changes (relid ?d) r) \<le> 1" by simp
    have rel1: "relid (output_writer_private ?c1) = relid ?d"
      using decode_record_stores [OF c1] by simp
    from decode_record_single [OF c1 one] show ?thesis
    proof
      assume same: "output_writer_private c1 = ?d"
      show ?thesis
      proof (cases elapsed)
        case True
        with nxt same show ?thesis by simp
      next
        case False
        with nxt have "decode_loop env end_of_wal mc wal InvalidXLogRecPtr ?c1
                         = Some (Inr (wal', sp', c', how))" by simp
        from Cons.IH [OF this] Cons.prems(2-5) same show ?thesis by simp
      qed
    next
      assume "\<exists>k tup. record_changes (relid ?d) r = [(k, tup)]
                \<and> output_writer_private c1 = store_change env ?d k tup"
      then obtain k tup where rc: "record_changes (relid ?d) r = [(k, tup)]"
        and st: "output_writer_private c1 = store_change env ?d k tup"
        by blast
      let ?s = "change_size env (flat_tuple env tup)"
      from Cons.prems(3) rc have big: "unat (maintenance_wm_bytes env) < 2 * unat ?s" by simp
      from unat_change_size_bound [OF Cons.prems(4)] have b: "unat ?s < 2 ^ 33" .
      from st Cons.prems(5) have ds: "data_size (output_writer_private ?c1) = ?s"
        by (simp add: data_size_store_change)
      have len1: "length (tstore (output_writer_private ?c1)) = Suc (length (tstore ?d))"
        using st by (simp add: tstore_store_change)
      show ?thesis
      proof (cases elapsed)
        case True
        with nxt len1 show ?thesis by simp
      next
        case False
        with nxt have l: "decode_loop env end_of_wal mc wal InvalidXLogRecPtr ?c1
                         = Some (Inr (wal', sp', c', how))" by simp
        from Cons.prems(2,3) rel1
        have h: "\<forall>r \<in> set wal. length (record_changes (relid (output_writer_private ?c1)) r) \<le> 1"
                "\<forall>r \<in> set wal. \<forall>kt \<in> set (record_changes (relid (output_writer_private ?c1)) r).
                   unat (maintenance_wm_bytes env) < 2 * unat (change_size env (flat_tuple env (snd kt)))"
          by simp_all
        from big b ds
        have "unat (maintenance_wm_bytes env) < 2 * unat (data_size (output_writer_private ?c1))"
             "unat (data_size (output_writer_private ?c1)) < 2 ^ 33" by simp_all
        from decode_loop_one_more [OF l h Cons.prems(4) this] len1 show ?thesis by simp
      qed
    qed
  qed
qed

lemma decode_record_accounted:
  "buffer_accounted env (output_writer_private c) \<Longrightarrow> decode_record env c r = Inr c1 \<Longrightarrow>
     buffer_accounted env (output_writer_private c1)"
  by (auto simp: decode_record_def dest: process_record_accounted split: XLogRead.splits sum.splits)

lemma decode_loop_accounted:
  assumes "decode_loop env end_of_wal mc wal sp c = Some (Inr (wal', sp', c', how))"
      and "buffer_accounted env (output_writer_private c)"
  shows "buffer_accounted env (output_writer_private c')"
  using assms
proof (induction wal arbitrary: sp c)
  case Nil
  then show ?case by (auto split: if_splits)
next
  case (Cons r wal)
  show ?case
  proof (cases "decode_more env end_of_wal sp c")
    case False
    with Cons.prems show ?thesis by simp
  next
    case True
    from decode_loop_step [OF Cons.prems(1) True] obtain c1 elapsed n where
      c1: "decode_record env c r = Inr c1"
      and nxt: "if elapsed then (wal', sp', c', how) = (wal, InvalidXLogRecPtr, c1\<lparr> clock_reads := n \<rparr>, DeadlineBreak)
                else decode_loop env end_of_wal mc wal InvalidXLogRecPtr (c1\<lparr> clock_reads := n \<rparr>)
                       = Some (Inr (wal', sp', c', how))"
      by blast
    from decode_record_accounted [OF Cons.prems(2) c1]
    have a: "buffer_accounted env (output_writer_private (c1\<lparr> clock_reads := n \<rparr>))" by simp
    show ?thesis
    proof (cases elapsed)
      case True
      with nxt a show ?thesis by simp
    next
      case False
      with nxt a Cons.IH show ?thesis by simp
    qed
  qed
qed


text \<open>
  Claim C7 says that the limit can be exceeded by at most the size of the last appended
  event, and that with a limit of N bytes and events larger than N/2 decoding stops with
  at most 2 buffered events. The size is compared once per record that is read, and one
  record can append several events. With the limit at 1048576 bytes and events of 600040
  bytes, an insert followed by an update with its old row leaves 3 events and 1800120
  bytes in the buffer, 751544 bytes above the limit, while two more records are unread.
\<close>

theorem threshold_counterexample:
  "maintenance_wm_bytes big_env = 1048576
   \<and> decode_concurrent_changes big_env 200 None big_wal 100 fresh_ctx =
       Some (Inr ([XLogRecord 170 [(1, big_insert 3)], XLogRecord 200 []], 0,
                  \<lparr> EndRecPtr = 150,
                    output_writer_private =
                      \<lparr> relid = 1,
                        tstore = [make_change big_env PG_SQUEEZE_CHANGE_INSERT (big_row 1),
                                  make_change big_env PG_SQUEEZE_CHANGE_UPDATE_OLD (big_row 1),
                                  make_change big_env PG_SQUEEZE_CHANGE_UPDATE_NEW (big_row 2)],
                        nchanges = 3, data_size = 1800120 \<rparr>,
                    confirmed_flush = 150, clock_reads = 0 \<rparr>,
                  False))
   \<and> stored_size big_env (make_change big_env PG_SQUEEZE_CHANGE_INSERT (big_row 1)) = 600040
   \<and> stored_size big_env (make_change big_env PG_SQUEEZE_CHANGE_UPDATE_OLD (big_row 1)) = 600040
   \<and> stored_size big_env (make_change big_env PG_SQUEEZE_CHANGE_UPDATE_NEW (big_row 2)) = 600040
   \<and> stored_size big_env (make_change big_env PG_SQUEEZE_CHANGE_INSERT (big_row 3)) = 600040"
  by (simp add: big_run big_wal_def big_row_stored_size)


lemma returned_overshoot_facts:
  assumes "decode_loop env end_of_wal mc wal sp c = Some (Inr (wal', sp', c', how))"
      and "\<forall>r \<in> set wal. length (record_changes (relid (output_writer_private c)) r) \<le> 1"
  shows "(output_writer_private c' = output_writer_private c
          \<or> (tstore (output_writer_private c') \<noteq> []
             \<and> unat (data_size (output_writer_private c'))
                 < unat (maintenance_wm_bytes env)
                   + unat (stored_size env (last (tstore (output_writer_private c'))))))
         \<and> ((\<forall>r \<in> set wal. \<forall>kt \<in> set (record_changes (relid (output_writer_private c)) r).
                unat (maintenance_wm_bytes env)
                  < 2 * unat (change_size env (flat_tuple env (snd kt))))
             \<and> unat (change_hdr_size env) < 2 ^ 32
             \<and> tstore (output_writer_private c) = []
             \<and> nchanges (output_writer_private c) = 0
             \<and> data_size (output_writer_private c) = 0
            \<longrightarrow> length (tstore (output_writer_private c')) \<le> 2
                \<and> nchanges (output_writer_private c') \<le> 2)"
proof (intro conjI impI)
  show "output_writer_private c' = output_writer_private c
          \<or> (tstore (output_writer_private c') \<noteq> []
             \<and> unat (data_size (output_writer_private c'))
                 < unat (maintenance_wm_bytes env)
                   + unat (stored_size env (last (tstore (output_writer_private c')))))"
    using assms by (rule decode_loop_overshoot)
next
  assume h: "(\<forall>r \<in> set wal. \<forall>kt \<in> set (record_changes (relid (output_writer_private c)) r).
                unat (maintenance_wm_bytes env)
                  < 2 * unat (change_size env (flat_tuple env (snd kt))))
             \<and> unat (change_hdr_size env) < 2 ^ 32
             \<and> tstore (output_writer_private c) = []
             \<and> nchanges (output_writer_private c) = 0
             \<and> data_size (output_writer_private c) = 0"
  then have "length (tstore (output_writer_private c'))
               \<le> Suc (Suc (length (tstore (output_writer_private c))))"
    using decode_loop_two_more [OF assms] by blast
  with h show len: "length (tstore (output_writer_private c')) \<le> 2" by simp
  from h have "buffer_accounted env (output_writer_private c)"
    by (simp add: buffer_accounted_def)
  from decode_loop_accounted [OF assms(1) this] len
  show "nchanges (output_writer_private c') \<le> 2"
    by (simp add: buffer_accounted_def)
qed


text \<open>
  Claim C7, amended. The byte size of the buffer is compared with the limit only at the
  top of the decode loop, once per record read, and one record can append several events
  (an update with an old row appends two). The loop returns when the WAL ahead holds a
  record that reaches the end bound. When every record that is read appends at most one
  event, it either leaves the buffer as it was or ends with a byte size below the limit
  plus the size of the last appended event; and when moreover the buffer is empty at the
  start and every event is larger than half the limit, it ends with at most 2 buffered
  events, whatever remains in the stream. (The header in front of a row image is below
  4 GB, so that sizes do not wrap.)
\<close>

theorem threshold_overshoot:
  "((\<exists>r \<in> set wal. ends_decoding end_of_wal r) \<longrightarrow>
      decode_loop env end_of_wal mc wal sp c \<noteq> None)
   \<and> (decode_loop env end_of_wal mc wal sp c = Some (Inr (wal', sp', c', how))
       \<and> (\<forall>r \<in> set wal. length (record_changes (relid (output_writer_private c)) r) \<le> 1)
      \<longrightarrow>
        (output_writer_private c' = output_writer_private c
         \<or> (tstore (output_writer_private c') \<noteq> []
            \<and> unat (data_size (output_writer_private c'))
                < unat (maintenance_wm_bytes env)
                  + unat (stored_size env (last (tstore (output_writer_private c'))))))
        \<and> ((\<forall>r \<in> set wal. \<forall>kt \<in> set (record_changes (relid (output_writer_private c)) r).
               unat (maintenance_wm_bytes env)
                 < 2 * unat (change_size env (flat_tuple env (snd kt))))
            \<and> unat (change_hdr_size env) < 2 ^ 32
            \<and> tstore (output_writer_private c) = []
            \<and> nchanges (output_writer_private c) = 0
            \<and> data_size (output_writer_private c) = 0
           \<longrightarrow> length (tstore (output_writer_private c')) \<le> 2
               \<and> nchanges (output_writer_private c') \<le> 2))"
  using decode_loop_returns [of wal end_of_wal env mc sp c]
        returned_overshoot_facts [of env end_of_wal mc wal sp c wal' sp' c' how]
  by blast

text \<open>
  At a concrete input: three inserts of 600040 bytes, one per record, with the limit at
  1048576 bytes. Decoding stops with 2 events and 1200080 bytes; two records are unread.
\<close>

theorem threshold_overshoot_witness:
  "decode_loop big_env 200 None big_inserts 100 fresh_ctx =
     Some (Inr ([XLogRecord 170 [(1, big_insert 3)], XLogRecord 200 []], 0,
                \<lparr> EndRecPtr = 150,
                  output_writer_private =
                    \<lparr> relid = 1,
                      tstore = [make_change big_env PG_SQUEEZE_CHANGE_INSERT (big_row 1),
                                make_change big_env PG_SQUEEZE_CHANGE_INSERT (big_row 2)],
                      nchanges = 2, data_size = 1200080 \<rparr>,
                  confirmed_flush = 0, clock_reads = 0 \<rparr>,
                LoopCondition))
   \<and> length [make_change big_env PG_SQUEEZE_CHANGE_INSERT (big_row 1),
              make_change big_env PG_SQUEEZE_CHANGE_INSERT (big_row 2)] \<le> 2
   \<and> (1200080 :: nat) < 1048576 + 600040"
proof -
  let ?c' = "\<lparr> EndRecPtr = 150,
                  output_writer_private =
                    \<lparr> relid = 1,
                      tstore = [make_change big_env PG_SQUEEZE_CHANGE_INSERT (big_row 1),
                                make_change big_env PG_SQUEEZE_CHANGE_INSERT (big_row 2)],
                      nchanges = 2, data_size = 1200080 \<rparr>,
                  confirmed_flush = 0, clock_reads = 0 \<rparr>"
  have run: "decode_loop big_env 200 None big_inserts 100 fresh_ctx =
     Some (Inr ([XLogRecord 170 [(1, big_insert 3)], XLogRecord 200 []], 0, ?c', LoopCondition))"
    by (simp add: big_run big_inserts_def)
  have one: "\<forall>r \<in> set big_inserts.
               length (record_changes (relid (output_writer_private fresh_ctx)) r) \<le> 1"
    by (simp add: big_inserts_def record_changes_def captured_changes_def big_insert_def
                  fresh_ctx_def buffered_def)
  have big: "\<forall>r \<in> set big_inserts.
               \<forall>kt \<in> set (record_changes (relid (output_writer_private fresh_ctx)) r).
                 unat (maintenance_wm_bytes big_env)
                   < 2 * unat (change_size big_env (flat_tuple big_env (snd kt)))"
    by (simp add: big_inserts_def record_changes_def captured_changes_def big_insert_def
                  fresh_ctx_def buffered_def big_env_limit big_row_size)
  have hdr: "unat (change_hdr_size big_env) < 2 ^ 32"
    by (simp add: big_env_def list_env_def)
  have empty: "tstore (output_writer_private fresh_ctx) = []"
              "nchanges (output_writer_private fresh_ctx) = 0"
              "data_size (output_writer_private fresh_ctx) = 0"
    by (simp_all add: fresh_ctx_def buffered_def)
  have changed: "output_writer_private ?c' \<noteq> output_writer_private fresh_ctx"
    by (simp add: fresh_ctx_def buffered_def)
  from threshold_overshoot
         [where wal = big_inserts and end_of_wal = 200 and env = big_env and mc = None
            and sp = 100 and c = fresh_ctx
            and wal' = "[XLogRecord 170 [(1, big_insert 3)], XLogRecord 200 []]"
            and sp' = 0 and c' = ?c' and how = LoopCondition]
       run one big hdr empty changed
  have "length (tstore (output_writer_private ?c')) \<le> 2"
       "unat (data_size (output_writer_private ?c'))
          < unat (maintenance_wm_bytes big_env)
            + unat (stored_size big_env (last (tstore (output_writer_private ?c'))))"
    by blast+
  then have "length [make_change big_env PG_SQUEEZE_CHANGE_INSERT (big_row 1),
                     make_change big_env PG_SQUEEZE_CHANGE_INSERT (big_row 2)] \<le> 2"
            "(1200080 :: nat) < 1048576 + 600040"
    by (simp_all add: big_env_limit big_row_stored_size)
  with run show ?thesis by blast
qed

end
